theory Spec2Isabelle
  imports Main
begin

section \<open>Domain types (domain/shared/types)\<close>

text \<open>
  The enums of the domain layer become datatypes; a \<open>Date\<close> is its number of milliseconds
  since the epoch, and a value of TypeScript type \<open>unknown\<close> or \<open>Record<string, unknown>\<close>
  is a JSON tree with \<open>undefined\<close> added (numbers are the integral ones).
\<close>

datatype ServiceType = AGENT | WEB_APP | MOBILE_APP | API

datatype ServiceStatus = HEALTHY | UNHEALTHY | DEGRADED | UNKNOWN | STARTING | STOPPING

datatype EventType =
    SERVICE_REGISTERED | SERVICE_DEREGISTERED | SERVICE_HEALTH_CHANGED
  | COMMAND_DISPATCHED | COMMAND_COMPLETED | COMMAND_FAILED
  | WORKFLOW_STARTED | WORKFLOW_COMPLETED | WORKFLOW_FAILED

type_synonym Date = nat

datatype unknown =
    JUndefined
  | JNull
  | JBool bool
  | JNumber int
  | JString string
  | JArray "unknown list"
  | JObject "(string \<times> unknown) list"

fun ServiceType_value :: "ServiceType \<Rightarrow> string" where
  "ServiceType_value AGENT = ''agent''"
| "ServiceType_value WEB_APP = ''web_app''"
| "ServiceType_value MOBILE_APP = ''mobile_app''"
| "ServiceType_value API = ''api''"

text \<open>JavaScript's truthiness, as \<open>||\<close> and \<open>&&\<close> read a value.\<close>

fun truthy :: "unknown \<Rightarrow> bool" where
  "truthy JUndefined = False"
| "truthy JNull = False"
| "truthy (JBool b) = b"
| "truthy (JNumber n) = (n \<noteq> 0)"
| "truthy (JString s) = (s \<noteq> [])"
| "truthy (JArray xs) = True"
| "truthy (JObject kvs) = True"

record ServiceCapability =
  cap_name :: string
  cap_version :: string
  cap_description :: "string option"

record HealthCheckResult =
  hc_status :: ServiceStatus
  hc_timestamp :: Date
  hc_responseTimeMs :: nat
  hc_details :: "unknown option"

section \<open>Errors (domain/shared/errors) and guards (domain/shared/guards)\<close>

datatype ErrorCode =
    INTERNAL_ERROR | VALIDATION_ERROR | NOT_FOUND | UNAUTHORIZED | FORBIDDEN
  | SERVICE_NOT_FOUND | SERVICE_ALREADY_EXISTS | SERVICE_REGISTRATION_FAILED
  | HEALTH_CHECK_FAILED | SERVICE_UNHEALTHY
  | GATEWAY_TIMEOUT | SERVICE_UNAVAILABLE | PROXY_ERROR
  | WORKFLOW_NOT_FOUND | WORKFLOW_EXECUTION_FAILED | COMMAND_DISPATCH_FAILED | COMMAND_TIMEOUT

text \<open>What a \<open>throw\<close> carries: a \<open>DomainError\<close> (code, message, HTTP status code) or any
  other \<open>Error\<close> of the platform (name, message).\<close>

datatype thrown =
    DomainError ErrorCode string nat
  | JsError string string

fun error_message :: "thrown \<Rightarrow> string" where
  "error_message (DomainError code msg statusCode) = msg"
| "error_message (JsError nm msg) = msg"

fun error_name :: "thrown \<Rightarrow> string" where
  "error_name (DomainError code msg statusCode) = ''DomainError''"
| "error_name (JsError nm msg) = nm"

definition DomainError_serviceUnavailable :: "string \<Rightarrow> thrown" where
  "DomainError_serviceUnavailable serviceId =
     DomainError SERVICE_UNAVAILABLE
       (''Service '' @ [CHR 0x27] @ serviceId @ [CHR 0x27] @ '' is currently unavailable'') 503"

definition DomainError_gatewayTimeout :: "string \<Rightarrow> thrown" where
  "DomainError_gatewayTimeout serviceId =
     DomainError GATEWAY_TIMEOUT
       (''Request to service '' @ [CHR 0x27] @ serviceId @ [CHR 0x27] @ '' timed out'') 504"

definition throwIfNull :: "'a option \<Rightarrow> string \<Rightarrow> thrown + 'a" where
  "throwIfNull v identifier =
     (case v of
        None \<Rightarrow>
          Inl (DomainError NOT_FOUND
                 (''Resource'' @ (if identifier \<noteq> [] then '' '' @ [CHR 0x27] @ identifier @ [CHR 0x27]
                                  else []) @ '' was not found'') 404)
      | Some x \<Rightarrow> Inr x)"

text \<open>\<open>String.prototype.trim\<close> on strings of Latin-1 code units: the white space and line
  terminators among them are 9 to 13, 32 and 160.\<close>

definition isWhiteSpace :: "char \<Rightarrow> bool" where
  "isWhiteSpace c = (of_char c \<in> {9, 10, 11, 12, 13, 32, 160 :: nat})"

definition String_trim :: "string \<Rightarrow> string" where
  "String_trim s = rev (dropWhile isWhiteSpace (rev (dropWhile isWhiteSpace s)))"

definition Guard_stringNotEmpty :: "string \<Rightarrow> string \<Rightarrow> thrown + string" where
  "Guard_stringNotEmpty v paramName =
     (if v = [] \<or> length (String_trim v) = 0
      then Inl (DomainError VALIDATION_ERROR
                  (paramName @ '' cannot be null, empty, or whitespace'') 400)
      else Inr v)"

text \<open>\<open>Guard.validUrl\<close> asks the platform's URL parser, here the predicate \<open>canParse\<close>.\<close>

definition Guard_validUrl :: "(string \<Rightarrow> bool) \<Rightarrow> string \<Rightarrow> string \<Rightarrow> thrown + string" where
  "Guard_validUrl canParse v paramName =
     (if canParse v then Inr v
      else Inl (DomainError VALIDATION_ERROR (paramName @ '' must be a valid URL'') 400))"

section \<open>Service entity (domain/registry/Service)\<close>

record ServiceProps =
  p_id :: string
  p_name :: string
  p_type :: ServiceType
  p_baseUrl :: string
  p_healthEndpoint :: "string option"
  p_capabilities :: "ServiceCapability list option"
  p_metadata :: "unknown option"
  p_version :: "string option"

record Service =
  s_id :: string
  s_name :: string
  s_type :: ServiceType
  s_baseUrl :: string
  s_healthEndpoint :: string
  s_capabilities :: "ServiceCapability list"
  s_metadata :: unknown
  s_version :: string
  s_registeredAt :: Date
  s_status :: ServiceStatus
  s_lastHealthCheck :: "HealthCheckResult option"
  s_lastSeenAt :: Date

record ServiceSnapshot =
  snap_id :: string
  snap_name :: string
  snap_type :: ServiceType
  snap_baseUrl :: string
  snap_healthEndpoint :: string
  snap_capabilities :: "ServiceCapability list"
  snap_metadata :: unknown
  snap_version :: string
  snap_status :: ServiceStatus
  snap_registeredAt :: Date
  snap_lastSeenAt :: Date
  snap_lastHealthCheck :: "HealthCheckResult option"

text \<open>\<open>x || d\<close> for an optional string: \<open>undefined\<close> and the empty string give \<open>d\<close>.\<close>

definition string_or :: "string option \<Rightarrow> string \<Rightarrow> string" where
  "string_or v d = (case v of None \<Rightarrow> d | Some x \<Rightarrow> if x = [] then d else x)"

text \<open>\<open>baseUrl.replace(/\/$/, '')\<close>: one trailing slash is removed.\<close>

definition stripTrailingSlash :: "string \<Rightarrow> string" where
  "stripTrailingSlash u = (if u \<noteq> [] \<and> last u = CHR ''/'' then butlast u else u)"

text \<open>The constructor, at time \<open>now\<close>. \<open>props.type\<close> has an enum type, so
  \<open>Guard.notNull\<close> passes.\<close>

definition new_Service :: "(string \<Rightarrow> bool) \<Rightarrow> Date \<Rightarrow> ServiceProps \<Rightarrow> thrown + Service" where
  "new_Service canParse now props =
     (case Guard_stringNotEmpty (p_id props) ''id'' of Inl e \<Rightarrow> Inl e | Inr _ \<Rightarrow>
      case Guard_stringNotEmpty (p_name props) ''name'' of Inl e \<Rightarrow> Inl e | Inr _ \<Rightarrow>
      case Guard_validUrl canParse (p_baseUrl props) ''baseUrl'' of Inl e \<Rightarrow> Inl e | Inr _ \<Rightarrow>
        Inr \<lparr>s_id = p_id props,
             s_name = p_name props,
             s_type = p_type props,
             s_baseUrl = stripTrailingSlash (p_baseUrl props),
             s_healthEndpoint = string_or (p_healthEndpoint props) ''/health'',
             s_capabilities = (case p_capabilities props of None \<Rightarrow> [] | Some cs \<Rightarrow> cs),
             s_metadata = (case p_metadata props of
                             None \<Rightarrow> JObject []
                           | Some m \<Rightarrow> if truthy m then m else JObject []),
             s_version = string_or (p_version props) ''1.0.0'',
             s_registeredAt = now,
             s_status = STARTING,
             s_lastHealthCheck = None,
             s_lastSeenAt = now\<rparr>)"

definition updateHealthStatus :: "Date \<Rightarrow> HealthCheckResult \<Rightarrow> Service \<Rightarrow> Service" where
  "updateHealthStatus now result s =
     s\<lparr>s_lastHealthCheck := Some result, s_status := hc_status result, s_lastSeenAt := now\<rparr>"

definition touch :: "Date \<Rightarrow> Service \<Rightarrow> Service" where
  "touch now s = s\<lparr>s_lastSeenAt := now\<rparr>"

definition getFullHealthUrl :: "Service \<Rightarrow> string" where
  "getFullHealthUrl s = s_baseUrl s @ s_healthEndpoint s"

definition hasCapability :: "Service \<Rightarrow> string \<Rightarrow> bool" where
  "hasCapability s capabilityName = list_ex (\<lambda>c. cap_name c = capabilityName) (s_capabilities s)"

definition isAvailable :: "Service \<Rightarrow> bool" where
  "isAvailable s = (s_status s = HEALTHY \<or> s_status s = DEGRADED)"

definition toSnapshot :: "Service \<Rightarrow> ServiceSnapshot" where
  "toSnapshot s =
     \<lparr>snap_id = s_id s,
      snap_name = s_name s,
      snap_type = s_type s,
      snap_baseUrl = s_baseUrl s,
      snap_healthEndpoint = s_healthEndpoint s,
      snap_capabilities = s_capabilities s,
      snap_metadata = s_metadata s,
      snap_version = s_version s,
      snap_status = s_status s,
      snap_registeredAt = s_registeredAt s,
      snap_lastSeenAt = s_lastSeenAt s,
      snap_lastHealthCheck = s_lastHealthCheck s\<rparr>"

section \<open>In-memory registry repository (infrastructure/registry/InMemoryRegistryRepository)\<close>

text \<open>
  The repository the process is wired with holds a \<open>Map<string, Service>\<close>. The model
  keeps its values in the Map's iteration order (insertion order), each under the key
  that is its own \<open>id\<close>: \<open>save\<close> is \<open>Map.set(service.id, service)\<close>, which replaces the
  value of a key that is present where it stands and appends a new key at the end.
\<close>

type_synonym repository = "Service list"

fun save :: "Service \<Rightarrow> repository \<Rightarrow> repository" where
  "save s [] = [s]"
| "save s (x # xs) = (if s_id x = s_id s then s # xs else x # save s xs)"

definition findById :: "repository \<Rightarrow> string \<Rightarrow> Service option" where
  "findById repo i = find (\<lambda>s. s_id s = i) repo"

definition findAll :: "repository \<Rightarrow> Service list" where
  "findAll repo = repo"

definition findByType :: "repository \<Rightarrow> string \<Rightarrow> Service list" where
  "findByType repo ty = filter (\<lambda>service. ServiceType_value (s_type service) = ty) repo"

definition findByStatus :: "repository \<Rightarrow> ServiceStatus \<Rightarrow> Service list" where
  "findByStatus repo st = filter (\<lambda>service. s_status service = st) repo"

definition delete :: "repository \<Rightarrow> string \<Rightarrow> bool \<times> repository" where
  "delete repo i = (list_ex (\<lambda>s. s_id s = i) repo, filter (\<lambda>s. s_id s \<noteq> i) repo)"

section \<open>Event bus (application/events/EventService)\<close>

record DomainEvent =
  ev_type :: EventType
  ev_serviceId :: "string option"
  ev_timestamp :: Date
  ev_data :: "unknown option"

text \<open>
  An event handler is a reference (\<open>handler_ref\<close>, what the \<open>Set\<close>s of the bus compare)
  together with what calling it does as far as the bus can see: whether it throws on a
  given event. The calls made are recorded in \<open>notified\<close>; what the services write to the
  console is not part of the model.
\<close>

record EventHandler =
  handler_ref :: nat
  handler_throws :: "DomainEvent \<Rightarrow> bool"

record EventService =
  handlers :: "EventType \<rightharpoonup> EventHandler list"
  allHandlers :: "EventHandler list"
  recentEvents :: "DomainEvent list"
  notified :: "(nat \<times> DomainEvent \<times> bool) list"

definition maxRecentEvents :: nat where
  "maxRecentEvents = 100"

definition new_EventService :: EventService where
  "new_EventService =
     \<lparr>handlers = Map.empty, allHandlers = [], recentEvents = [], notified = []\<rparr>"

text \<open>\<open>Array.prototype.unshift\<close>, \<open>pop\<close> and \<open>slice\<close>, the last with JavaScript's
  treatment of negative and too large indices.\<close>

definition Array_unshift :: "'a \<Rightarrow> 'a list \<Rightarrow> 'a list" where
  "Array_unshift x xs = x # xs"

definition Array_pop :: "'a list \<Rightarrow> 'a list" where
  "Array_pop xs = butlast xs"

definition slice_index :: "nat \<Rightarrow> int \<Rightarrow> nat" where
  "slice_index len i = (if i < 0 then nat (max (int len + i) 0) else min (nat i) len)"

definition Array_slice :: "'a list \<Rightarrow> int \<Rightarrow> int \<Rightarrow> 'a list" where
  "Array_slice xs start fin =
     (let k = slice_index (length xs) start; final = slice_index (length xs) fin
      in take (final - k) (drop k xs))"

text \<open>Calling the handlers of one registry in subscription order; a handler that throws is
  caught, and the next one is called all the same. Each call is recorded in \<open>notified\<close>
  with whether it threw.\<close>

fun notify :: "EventHandler list \<Rightarrow> DomainEvent \<Rightarrow> (nat \<times> DomainEvent \<times> bool) list" where
  "notify [] event = []"
| "notify (h # hs) event = (handler_ref h, event, handler_throws h event) # notify hs event"

definition emit :: "DomainEvent \<Rightarrow> EventService \<Rightarrow> EventService" where
  "emit event es =
     (let stored = Array_unshift event (recentEvents es);
          stored' = (if length stored > maxRecentEvents then Array_pop stored else stored);
          typeCalls = (case handlers es (ev_type event) of
                         Some typeHandlers \<Rightarrow> notify typeHandlers event
                       | None \<Rightarrow> []);
          allCalls = notify (allHandlers es) event
      in es\<lparr>recentEvents := stored', notified := notified es @ typeCalls @ allCalls\<rparr>)"

definition Set_add :: "EventHandler \<Rightarrow> EventHandler list \<Rightarrow> EventHandler list" where
  "Set_add h hs = (if handler_ref h \<in> handler_ref ` set hs then hs else hs @ [h])"

definition Set_delete :: "EventHandler \<Rightarrow> EventHandler list \<Rightarrow> EventHandler list" where
  "Set_delete h hs = filter (\<lambda>g. handler_ref g \<noteq> handler_ref h) hs"

definition subscribe :: "EventType \<Rightarrow> EventHandler \<Rightarrow> EventService \<Rightarrow> EventService" where
  "subscribe eventType handler es =
     (let hm = (if handlers es eventType = None then (handlers es)(eventType \<mapsto> [])
                else handlers es)
      in es\<lparr>handlers := hm(eventType \<mapsto> Set_add handler (the (hm eventType)))\<rparr>)"

definition unsubscribe :: "EventType \<Rightarrow> EventHandler \<Rightarrow> EventService \<Rightarrow> EventService" where
  "unsubscribe eventType handler es =
     (case handlers es eventType of
        Some typeHandlers \<Rightarrow>
          es\<lparr>handlers := (handlers es)(eventType \<mapsto> Set_delete handler typeHandlers)\<rparr>
      | None \<Rightarrow> es)"

definition subscribeAll :: "EventHandler \<Rightarrow> EventService \<Rightarrow> EventService" where
  "subscribeAll handler es = es\<lparr>allHandlers := Set_add handler (allHandlers es)\<rparr>"

text \<open>\<open>getRecentEvents(limit = 50)\<close>: the argument is optional, and the result is a fresh
  array; the bus is returned as it was.\<close>

definition getRecentEvents ::
  "int option \<Rightarrow> EventService \<Rightarrow> DomainEvent list \<times> EventService" where
  "getRecentEvents limit es =
     (let lim = (case limit of None \<Rightarrow> 50 | Some l \<Rightarrow> l)
      in (Array_slice (recentEvents es) 0 lim, es))"

text \<open>Emitting a sequence of events, the first of the list first.\<close>

definition emit_all :: "DomainEvent list \<Rightarrow> EventService \<Rightarrow> EventService" where
  "emit_all events es = foldl (\<lambda>s e. emit e s) es events"

section \<open>The platform and the world outside the process\<close>

text \<open>
  The services call three things they do not define: the clock (\<open>Date.now()\<close>,
  \<open>new Date()\<close>), the platform's \<open>URL\<close> class and \<open>fetch\<close>. The clock and the log of
  outbound requests are part of the state; the network is a script that tells, for the
  \<open>n\<close>-th outbound request of the run, how long the exchange takes and how it ends, so
  every behaviour of the network is one such script. Time passes only while a request is
  awaited.
\<close>

record FetchRequest =
  fr_url :: string
  fr_method :: string
  fr_headers :: "(string \<times> string) list"
  fr_body :: "unknown option"

text \<open>A \<open>Response\<close>: the header names are lower-case, as \<open>Headers\<close> holds them;
  \<open>res_json\<close> is what \<open>response.json()\<close> resolves to, or the message of the
  \<open>SyntaxError\<close> it throws when the body is not JSON.\<close>

record HttpResponse =
  res_status :: nat
  res_headers :: "(string \<times> string) list"
  res_text :: string
  res_json :: "string + unknown"

datatype FetchResult = Response HttpResponse | NetworkFailure string

record platform =
  network :: "nat \<Rightarrow> FetchRequest \<Rightarrow> nat \<times> FetchResult"
  URL_canParse :: "string \<Rightarrow> bool"
  URL_new :: "string \<Rightarrow> string \<Rightarrow> string option"
  URL_append :: "string \<Rightarrow> string \<Rightarrow> string \<Rightarrow> string"

text \<open>
  \<open>URL_canParse v\<close>: \<open>new URL(v)\<close> does not throw. \<open>URL_new input base\<close>: the
  serialisation of \<open>new URL(input, base)\<close>, \<open>None\<close> when the constructor throws its
  \<open>TypeError\<close>. \<open>URL_append href key value\<close>: the serialisation after
  \<open>url.searchParams.append(key, value)\<close>.
\<close>

record world =
  services :: repository
  clock :: Date
  outbound :: "FetchRequest list"
  bus :: EventService

definition response_ok :: "HttpResponse \<Rightarrow> bool" where
  "response_ok r = (200 \<le> res_status r \<and> res_status r \<le> 299)"

text \<open>
  \<open>fetch\<close> under an \<open>AbortController\<close> whose timer is set to \<open>timeout\<close> milliseconds: the
  request is logged; when the exchange takes as long as the timer or longer, the timer
  fires first and the call rejects with an \<open>AbortError\<close> at the deadline.
\<close>

definition fetch :: "platform \<Rightarrow> FetchRequest \<Rightarrow> nat \<Rightarrow> world \<Rightarrow> (thrown + HttpResponse) \<times> world" where
  "fetch pf req timeout w =
     (case network pf (length (outbound w)) req of
        (elapsed, res) \<Rightarrow>
          if timeout \<le> elapsed
          then (Inl (JsError ''AbortError'' ''This operation was aborted''),
                w\<lparr>clock := clock w + timeout, outbound := outbound w @ [req]\<rparr>)
          else (case res of
                  Response r \<Rightarrow> Inr r
                | NetworkFailure msg \<Rightarrow> Inl (JsError ''TypeError'' msg),
                w\<lparr>clock := clock w + elapsed, outbound := outbound w @ [req]\<rparr>))"

section \<open>Health service (application/health/HealthService)\<close>

definition HEALTH_CHECK_TIMEOUT_MS :: nat where
  "HEALTH_CHECK_TIMEOUT_MS = 5000"

definition COMMAND_TIMEOUT_MS :: nat where
  "COMMAND_TIMEOUT_MS = 30000"

record ServiceHealthDetail =
  d_serviceId :: string
  d_serviceName :: string
  d_status :: ServiceStatus
  d_lastCheck :: "Date option"
  d_responseTimeMs :: "nat option"
  d_error :: "unknown option"

record AggregatedHealth =
  agg_status :: ServiceStatus
  agg_timestamp :: Date
  agg_total :: nat
  agg_healthy :: nat
  agg_unhealthy :: nat
  agg_degraded :: nat
  agg_unknown :: nat
  agg_details :: "ServiceHealthDetail list"

text \<open>The request of an active check, \<open>fetch(service.getFullHealthUrl(), {method: 'GET',
  headers: {'Accept': 'application/json'}})\<close>, and the status and the details of a check
  whose request got a response.\<close>

definition classify :: "HttpResponse \<Rightarrow> ServiceStatus \<times> unknown" where
  "classify response =
     (if response_ok response
      then (HEALTHY, (case res_json response of Inr v \<Rightarrow> v | Inl msg \<Rightarrow> JObject []))
      else if res_status response \<ge> 500
      then (UNHEALTHY, JObject [(''httpStatus'', JNumber (int (res_status response)))])
      else (DEGRADED, JObject [(''httpStatus'', JNumber (int (res_status response)))]))"

definition health_request :: "Service \<Rightarrow> FetchRequest" where
  "health_request service =
     \<lparr>fr_url = getFullHealthUrl service, fr_method = ''GET'',
      fr_headers = [(''Accept'', ''application/json'')], fr_body = None\<rparr>"

definition checkServiceHealth :: "platform \<Rightarrow> string \<Rightarrow> world \<Rightarrow> HealthCheckResult \<times> world" where
  "checkServiceHealth pf serviceId w =
     (case findById (services w) serviceId of
        None \<Rightarrow>
          (\<lparr>hc_status = UNKNOWN, hc_timestamp = clock w, hc_responseTimeMs = 0,
            hc_details = Some (JObject [(''error'', JString ''Service not found'')])\<rparr>, w)
      | Some service \<Rightarrow>
          (let startTime = clock w;
               (settled, w1) =
                  fetch pf (health_request service) HEALTH_CHECK_TIMEOUT_MS w;
               responseTimeMs = clock w1 - startTime;
               result =
                 (case settled of
                    Inr response \<Rightarrow>
                      (case classify response of
                         (status, details) \<Rightarrow>
                           \<lparr>hc_status = status, hc_timestamp = clock w1,
                            hc_responseTimeMs = responseTimeMs, hc_details = Some details\<rparr>)
                  | Inl error \<Rightarrow>
                      \<lparr>hc_status = UNHEALTHY, hc_timestamp = clock w1,
                       hc_responseTimeMs = responseTimeMs,
                       hc_details = Some (JObject [(''error'', JString (error_message error))])\<rparr>)
           in (result,
               w1\<lparr>services := save (updateHealthStatus (clock w1) result service) (services w1)\<rparr>)))"

text \<open>The four counters of a summary, and the case distinction both loops make.\<close>

record counters =
  healthy :: nat
  unhealthy :: nat
  degraded :: nat
  unknown_count :: nat

definition count_status :: "ServiceStatus \<Rightarrow> counters \<Rightarrow> counters" where
  "count_status st c =
     (case st of
        HEALTHY \<Rightarrow> c\<lparr>healthy := healthy c + 1\<rparr>
      | UNHEALTHY \<Rightarrow> c\<lparr>unhealthy := unhealthy c + 1\<rparr>
      | DEGRADED \<Rightarrow> c\<lparr>degraded := degraded c + 1\<rparr>
      | _ \<Rightarrow> c\<lparr>unknown_count := unknown_count c + 1\<rparr>)"

definition zero_counters :: counters where
  "zero_counters = \<lparr>healthy = 0, unhealthy = 0, degraded = 0, unknown_count = 0\<rparr>"

text \<open>The loop of \<open>checkAllServices\<close> over the array \<open>findAll\<close> returned: one active check
  per element, by its id, each on the world the previous one left.\<close>

fun checkAll_loop ::
  "platform \<Rightarrow> Service list \<Rightarrow> counters \<times> ServiceHealthDetail list \<times> world \<Rightarrow>
   counters \<times> ServiceHealthDetail list \<times> world" where
  "checkAll_loop pf [] acc = acc"
| "checkAll_loop pf (service # rest) (c, details, w) =
     (case checkServiceHealth pf (s_id service) w of
        (healthResult, w') \<Rightarrow>
          checkAll_loop pf rest
            (count_status (hc_status healthResult) c,
             details @ [\<lparr>d_serviceId = s_id service, d_serviceName = s_name service,
                         d_status = hc_status healthResult,
                         d_lastCheck = Some (hc_timestamp healthResult),
                         d_responseTimeMs = Some (hc_responseTimeMs healthResult),
                         d_error = (case hc_details healthResult of
                                      Some (JObject kvs) \<Rightarrow> map_of kvs ''error''
                                    | _ \<Rightarrow> None)\<rparr>],
             w'))"

definition checkAllServices :: "platform \<Rightarrow> world \<Rightarrow> AggregatedHealth \<times> world" where
  "checkAllServices pf w =
     (let svcs = findAll (services w) in
      case checkAll_loop pf svcs (zero_counters, [], w) of
        (c, details, w') \<Rightarrow>
          (let overallStatus =
                 (if unhealthy c > 0
                  then (if length svcs = unhealthy c then UNHEALTHY else DEGRADED)
                  else if degraded c > 0 then DEGRADED
                  else if healthy c > 0 then HEALTHY
                  else UNKNOWN)
           in (\<lparr>agg_status = overallStatus, agg_timestamp = clock w',
                agg_total = length svcs, agg_healthy = healthy c,
                agg_unhealthy = unhealthy c, agg_degraded = degraded c,
                agg_unknown = unknown_count c, agg_details = details\<rparr>, w')))"

definition getServiceHealth :: "string \<Rightarrow> world \<Rightarrow> HealthCheckResult option" where
  "getServiceHealth serviceId w =
     (case findById (services w) serviceId of
        None \<Rightarrow> None
      | Some service \<Rightarrow> s_lastHealthCheck service)"

fun aggregated_loop ::
  "Service list \<Rightarrow> counters \<times> ServiceHealthDetail list \<Rightarrow> counters \<times> ServiceHealthDetail list" where
  "aggregated_loop [] acc = acc"
| "aggregated_loop (service # rest) (c, details) =
     aggregated_loop rest
       (count_status (s_status service) c,
        details @ [\<lparr>d_serviceId = s_id service, d_serviceName = s_name service,
                    d_status = s_status service,
                    d_lastCheck = map_option hc_timestamp (s_lastHealthCheck service),
                    d_responseTimeMs = map_option hc_responseTimeMs (s_lastHealthCheck service),
                    d_error = None\<rparr>])"

definition getAggregatedHealth :: "world \<Rightarrow> AggregatedHealth" where
  "getAggregatedHealth w =
     (let svcs = findAll (services w) in
      case aggregated_loop svcs (zero_counters, []) of
        (c, details) \<Rightarrow>
          (let overallStatus =
                 (if unhealthy c > 0
                  then (if length svcs = unhealthy c then UNHEALTHY else DEGRADED)
                  else if degraded c > 0 then DEGRADED
                  else if healthy c > 0 then HEALTHY
                  else UNKNOWN)
           in \<lparr>agg_status = overallStatus, agg_timestamp = clock w,
               agg_total = length svcs, agg_healthy = healthy c,
               agg_unhealthy = unhealthy c, agg_degraded = degraded c,
               agg_unknown = unknown_count c, agg_details = details\<rparr>))"

section \<open>Registry service (application/registry/RegistryService)\<close>

text \<open>
  Strings are lists of code units below 256 (Latin-1). \<open>toLowerCase\<close> maps \<open>A\<close> to \<open>Z\<close>
  and the upper-case letters of Latin-1 (192 to 222 without the multiplication sign 215)
  to the code unit 32 above.
\<close>

definition toLowerChar :: "char \<Rightarrow> char" where
  "toLowerChar c =
     (let n = (of_char c :: nat)
      in if (65 \<le> n \<and> n \<le> 90) \<or> (192 \<le> n \<and> n \<le> 222 \<and> n \<noteq> 215)
         then char_of (n + 32) else c)"

definition String_toLowerCase :: "string \<Rightarrow> string" where
  "String_toLowerCase s = map toLowerChar s"

text \<open>The character class \<open>[a-z0-9]\<close>.\<close>

definition isLowerAlnum :: "char \<Rightarrow> bool" where
  "isLowerAlnum c =
     (let n = (of_char c :: nat) in (97 \<le> n \<and> n \<le> 122) \<or> (48 \<le> n \<and> n \<le> 57))"

text \<open>\<open>.replace(/[^a-z0-9]+/g, '-')\<close>: scanning from the left, each match is the longest
  run of characters outside the class, and it is replaced by one dash.\<close>

function replaceNonAlnumRuns :: "string \<Rightarrow> string" where
  "replaceNonAlnumRuns [] = []"
| "replaceNonAlnumRuns (c # cs) =
     (if isLowerAlnum c then c # replaceNonAlnumRuns cs
      else CHR ''-'' # replaceNonAlnumRuns (dropWhile (\<lambda>d. \<not> isLowerAlnum d) cs))"
  by pat_completeness auto
termination
  by (relation "measure length") (auto simp: less_Suc_eq_le length_dropWhile_le)

text \<open>\<open>.replace(/^-|-$/g, '')\<close>: a dash at the start is removed, and then a dash at the
  end of what is left.\<close>

definition trimDashes :: "string \<Rightarrow> string" where
  "trimDashes s =
     (let s1 = (if s \<noteq> [] \<and> hd s = CHR ''-'' then tl s else s)
      in if s1 \<noteq> [] \<and> last s1 = CHR ''-'' then butlast s1 else s1)"

definition generateServiceId :: "string \<Rightarrow> string" where
  "generateServiceId name = trimDashes (replaceNonAlnumRuns (String_toLowerCase name))"

record RegisterServiceRequest =
  r_name :: string
  r_type :: ServiceType
  r_baseUrl :: string
  r_healthEndpoint :: "string option"
  r_capabilities :: "ServiceCapability list option"
  r_metadata :: "unknown option"
  r_version :: "string option"

text \<open>The argument of \<open>new Service({...})\<close> in \<open>registerService\<close>.\<close>

definition service_props :: "string \<Rightarrow> RegisterServiceRequest \<Rightarrow> ServiceProps" where
  "service_props serviceId request =
     \<lparr>p_id = serviceId, p_name = r_name request, p_type = r_type request,
      p_baseUrl = r_baseUrl request, p_healthEndpoint = r_healthEndpoint request,
      p_capabilities = r_capabilities request, p_metadata = r_metadata request,
      p_version = r_version request\<rparr>"

text \<open>
  \<open>RegistryService\<close> is constructed with an \<open>IHealthService\<close>; \<open>registerService\<close> takes its
  \<open>checkServiceHealth\<close> as the parameter \<open>check\<close>, which may throw. The process wires
  \<open>HealthService\<close> in, which is \<open>healthService\<close> below. The entity \<open>service\<close> that
  \<open>registerService\<close> constructs is the object the repository holds under \<open>serviceId\<close>,
  so the snapshot it returns at the end reads that entry.
\<close>

definition healthService ::
  "platform \<Rightarrow> string \<Rightarrow> world \<Rightarrow> (thrown + HealthCheckResult) \<times> world" where
  "healthService pf serviceId w =
     (case checkServiceHealth pf serviceId w of (result, w') \<Rightarrow> (Inr result, w'))"

definition registerService ::
  "platform \<Rightarrow> (string \<Rightarrow> world \<Rightarrow> (thrown + HealthCheckResult) \<times> world) \<Rightarrow>
   RegisterServiceRequest \<Rightarrow> world \<Rightarrow> (thrown + ServiceSnapshot) \<times> world" where
  "registerService pf check request w =
     (let serviceId = generateServiceId (r_name request) in
      case findById (services w) serviceId of
        Some existing \<Rightarrow>
          (let existing' = touch (clock w) existing
           in (Inr (toSnapshot existing'), w\<lparr>services := save existing' (services w)\<rparr>))
      | None \<Rightarrow>
          (case new_Service (URL_canParse pf) (clock w) (service_props serviceId request) of
             Inl e \<Rightarrow> (Inl e, w)
           | Inr service \<Rightarrow>
               (let w1 = w\<lparr>services := save service (services w)\<rparr>;
                    w2 = snd (check serviceId w1);
                    w3 = w2\<lparr>bus := emit \<lparr>ev_type = SERVICE_REGISTERED,
                                          ev_serviceId = Some serviceId,
                                          ev_timestamp = clock w2,
                                          ev_data = Some (JObject
                                            [(''name'', JString (r_name request)),
                                             (''type'', JString (ServiceType_value (r_type request)))])\<rparr>
                                     (bus w2)\<rparr>
                in (Inr (toSnapshot (case findById (services w3) serviceId of
                                       Some stored \<Rightarrow> stored
                                     | None \<Rightarrow> service)), w3))))"

definition deregisterService :: "string \<Rightarrow> world \<Rightarrow> (thrown + unit) \<times> world" where
  "deregisterService serviceId w =
     (case throwIfNull (findById (services w) serviceId) serviceId of
        Inl e \<Rightarrow> (Inl e, w)
      | Inr service \<Rightarrow>
          (let w1 = w\<lparr>services := snd (delete (services w) serviceId)\<rparr>
           in (Inr (),
               w1\<lparr>bus := emit \<lparr>ev_type = SERVICE_DEREGISTERED, ev_serviceId = Some serviceId,
                                ev_timestamp = clock w1,
                                ev_data = Some (JObject [(''name'', JString (s_name service))])\<rparr>
                           (bus w1)\<rparr>)))"

definition getService :: "string \<Rightarrow> world \<Rightarrow> thrown + ServiceSnapshot" where
  "getService serviceId w =
     (case throwIfNull (findById (services w) serviceId) serviceId of
        Inl e \<Rightarrow> Inl e
      | Inr service \<Rightarrow> Inr (toSnapshot service))"

definition heartbeat :: "string \<Rightarrow> world \<Rightarrow> (thrown + unit) \<times> world" where
  "heartbeat serviceId w =
     (case findById (services w) serviceId of
        Some service \<Rightarrow> (Inr (), w\<lparr>services := save (touch (clock w) service) (services w)\<rparr>)
      | None \<Rightarrow> (Inr (), w))"

section \<open>Gateway service (application/gateway/GatewayService)\<close>

record ProxyRequest =
  pr_serviceId :: string
  pr_method :: string
  pr_path :: string
  pr_headers :: "(string \<times> string) list option"
  pr_body :: unknown
  pr_query :: "(string \<times> string) list option"
  pr_timeout :: "nat option"

record ProxyResponse =
  resp_status :: nat
  resp_headers :: "(string \<times> string) list"
  resp_body :: unknown
  resp_responseTimeMs :: nat

text \<open>Object spread \<open>{...a, ...b}\<close> on objects kept as lists of their entries: a key of
  \<open>b\<close> that \<open>a\<close> has replaces the value where the key stands, a new key goes to the end.\<close>

fun Object_set :: "string \<times> string \<Rightarrow> (string \<times> string) list \<Rightarrow> (string \<times> string) list" where
  "Object_set kv [] = [kv]"
| "Object_set kv (x # xs) = (if fst x = fst kv then kv # xs else x # Object_set kv xs)"

definition Object_spread :: "(string \<times> string) list \<Rightarrow> (string \<times> string) list \<Rightarrow> (string \<times> string) list" where
  "Object_spread a b = foldl (\<lambda>acc kv. Object_set kv acc) a b"

text \<open>\<open>String.prototype.includes\<close>.\<close>

fun String_includes :: "string \<Rightarrow> string \<Rightarrow> bool" where
  "String_includes [] needle = (needle = [])"
| "String_includes (c # cs) needle =
     (take (length needle) (c # cs) = needle \<or> String_includes cs needle)"

text \<open>The \<open>fetchOptions\<close> of \<open>proxy\<close> together with the address \<open>url.toString()\<close> after
  the query parameters have been appended to \<open>href\<close>, and its \<open>timeout\<close>,
  \<open>request.timeout || COMMAND_TIMEOUT_MS\<close>. The body of the request is
  \<open>JSON.stringify(request.body)\<close>, kept as the value.\<close>

definition proxy_options :: "platform \<Rightarrow> ProxyRequest \<Rightarrow> string \<Rightarrow> FetchRequest" where
  "proxy_options pf request href =
     \<lparr>fr_url = foldl (\<lambda>u (key, val). URL_append pf u key val) href
                 (case pr_query request of None \<Rightarrow> [] | Some q \<Rightarrow> q),
      fr_method = pr_method request,
      fr_headers =
        Object_spread
          [(''Content-Type'', ''application/json''), (''X-Forwarded-By'', ''overlord-api'')]
          (case pr_headers request of None \<Rightarrow> [] | Some h \<Rightarrow> h),
      fr_body =
        (if truthy (pr_body request) \<and> pr_method request \<in> set [''POST'', ''PUT'', ''PATCH'']
         then Some (pr_body request) else None)\<rparr>"

definition proxy_timeout :: "ProxyRequest \<Rightarrow> nat" where
  "proxy_timeout request =
     (case pr_timeout request of
        None \<Rightarrow> COMMAND_TIMEOUT_MS
      | Some t \<Rightarrow> if t = 0 then COMMAND_TIMEOUT_MS else t)"

definition proxy :: "platform \<Rightarrow> ProxyRequest \<Rightarrow> world \<Rightarrow> (thrown + ProxyResponse) \<times> world" where
  "proxy pf request w =
     (case throwIfNull (findById (services w) (pr_serviceId request)) (pr_serviceId request) of
        Inl e \<Rightarrow> (Inl e, w)
      | Inr service \<Rightarrow>
          if \<not> isAvailable service
          then (Inl (DomainError_serviceUnavailable (pr_serviceId request)), w)
          else
            (case URL_new pf (pr_path request) (s_baseUrl service) of
               None \<Rightarrow> (Inl (JsError ''TypeError'' ''Invalid URL''), w)
             | Some href \<Rightarrow>
                 (let startTime = clock w;
                      (settled, w1) =
                        fetch pf (proxy_options pf request href) (proxy_timeout request) w
                  in case settled of
                       Inl error \<Rightarrow>
                         (if error_name error = ''AbortError''
                          then Inl (DomainError_gatewayTimeout (pr_serviceId request))
                          else Inl error, w1)
                     | Inr response \<Rightarrow>
                         (let responseTimeMs = clock w1 - startTime;
                              contentType = map_of (res_headers response) ''content-type'';
                              parsed =
                                (case contentType of
                                   Some ct \<Rightarrow>
                                     if String_includes ct ''application/json''
                                     then res_json response
                                     else Inr (JString (res_text response))
                                 | None \<Rightarrow> Inr (JString (res_text response)))
                          in case parsed of
                               Inl msg \<Rightarrow> (Inl (JsError ''SyntaxError'' msg), w1)
                             | Inr body \<Rightarrow>
                                 (Inr \<lparr>resp_status = res_status response,
                                       resp_headers = res_headers response,
                                       resp_body = body,
                                       resp_responseTimeMs = responseTimeMs\<rparr>,
                                  w1\<lparr>services := save (touch (clock w1) service)
                                                     (services w1)\<rparr>)))))"

text \<open>
  \<open>broadcast\<close>: every leg is the \<open>async\<close> callback of \<open>map\<close>, whose \<open>try\<close>/\<open>catch\<close> turns what
  \<open>proxy\<close> throws into an entry of \<open>results\<close>; \<open>Promise.all\<close> rejects when a leg rejects.
  The legs start together, at the time \<open>t0\<close> of the call, and the call returns when the
  last of them has settled; each leg acts on the entry of its own service, so the model
  runs them one after the other in the order of the targets, each from time \<open>t0\<close>, and
  ends at the latest of their completion times. \<open>results\<close> is a map from ids.
\<close>

definition broadcast_request :: "Service \<Rightarrow> unknown \<Rightarrow> ProxyRequest" where
  "broadcast_request service message =
     \<lparr>pr_serviceId = s_id service, pr_method = ''POST'', pr_path = ''/broadcast'',
      pr_headers = None, pr_body = message, pr_query = None, pr_timeout = None\<rparr>"

definition broadcast_leg ::
  "platform \<Rightarrow> unknown \<Rightarrow> Service \<Rightarrow> (string \<rightharpoonup> unknown) \<times> world \<Rightarrow>
   (thrown + unit) \<times> (string \<rightharpoonup> unknown) \<times> world" where
  "broadcast_leg pf message service rw =
     (case rw of
        (results, w) \<Rightarrow>
          (case proxy pf (broadcast_request service message) w of
             (Inr response, w') \<Rightarrow>
               (Inr (), results(s_id service \<mapsto> resp_body response), w')
           | (Inl error, w') \<Rightarrow>
               (Inr (), results(s_id service \<mapsto> JObject [(''error'', JString (error_message error))]),
                w')))"

fun broadcast_legs ::
  "platform \<Rightarrow> unknown \<Rightarrow> Date \<Rightarrow> Service list \<Rightarrow> (string \<rightharpoonup> unknown) \<times> world \<Rightarrow>
   (thrown + unit) \<times> (string \<rightharpoonup> unknown) \<times> world" where
  "broadcast_legs pf message t0 [] rw = (Inr (), rw)"
| "broadcast_legs pf message t0 (service # rest) (results, w) =
     (case broadcast_leg pf message service (results, w\<lparr>clock := t0\<rparr>) of
        (settled, results', w') \<Rightarrow>
          (case broadcast_legs pf message t0 rest (results', w'\<lparr>clock := max (clock w) (clock w')\<rparr>) of
             (others, rw') \<Rightarrow>
               (case settled of Inl e \<Rightarrow> Inl e | Inr _ \<Rightarrow> others, rw')))"

definition broadcast_targets :: "string \<Rightarrow> world \<Rightarrow> Service list" where
  "broadcast_targets serviceType w = filter isAvailable (findByType (services w) serviceType)"

definition broadcast ::
  "platform \<Rightarrow> string \<Rightarrow> unknown \<Rightarrow> world \<Rightarrow> (thrown + (string \<rightharpoonup> unknown)) \<times> world" where
  "broadcast pf serviceType message w =
     (case broadcast_legs pf message (clock w) (broadcast_targets serviceType w) (Map.empty, w) of
        (Inl e, results, w') \<Rightarrow> (Inl e, w')
      | (Inr _, results, w') \<Rightarrow> (Inr results, w'))"

text \<open>For stating what \<open>broadcast\<close> returns: the entry a leg writes for the outcome of
  its \<open>proxy\<close> call, and the world in which the leg of the \<open>i\<close>-th target runs, which
  is the one the legs of the targets before it leave, at the time \<open>t0\<close>.\<close>

definition leg_entry :: "thrown + ProxyResponse \<Rightarrow> unknown" where
  "leg_entry outcome =
     (case outcome of
        Inr response \<Rightarrow> resp_body response
      | Inl error \<Rightarrow> JObject [(''error'', JString (error_message error))])"


section \<open>The slug as the specification words it\<close>

text \<open>
  The maximal runs of characters of \<open>[a-z0-9]\<close> in a string, in order, and their
  concatenation with one dash between neighbours. \<open>lead\<close> and \<open>trail\<close> are the dash that
  \<open>replaceNonAlnumRuns\<close> leaves before the first and after the last run.
\<close>

fun alnum_words :: "string \<Rightarrow> string list" where
  "alnum_words [] = []"
| "alnum_words (c # cs) =
     (if isLowerAlnum c
      then (case cs of
              [] \<Rightarrow> [[c]]
            | d # ds \<Rightarrow>
                if isLowerAlnum d
                then (case alnum_words cs of w # ws \<Rightarrow> (c # w) # ws | [] \<Rightarrow> [[c]])
                else [c] # alnum_words cs)
      else alnum_words cs)"

fun join_dashes :: "string list \<Rightarrow> string" where
  "join_dashes [] = []"
| "join_dashes [w] = w"
| "join_dashes (w # v # ws) = w @ CHR ''-'' # join_dashes (v # ws)"


definition lead :: "string \<Rightarrow> string" where
  "lead s = (if s \<noteq> [] \<and> \<not> isLowerAlnum (hd s) then ''-'' else [])"

definition trail :: "string \<Rightarrow> string" where
  "trail s = (if s \<noteq> [] \<and> \<not> isLowerAlnum (last s) \<and> alnum_words s \<noteq> [] then ''-'' else [])"

section \<open>The overall status as the specification words it\<close>

text \<open>
  Given \<open>N\<close> services of which \<open>h\<close> count as healthy, \<open>d\<close> as degraded and \<open>u\<close> as
  unhealthy: unhealthy iff \<open>u = N\<close> and \<open>N > 0\<close>; else degraded iff \<open>u > 0\<close> or \<open>d > 0\<close>;
  else healthy iff \<open>h > 0\<close>; else unknown. \<open>count_of st sts\<close> is the number of
  occurrences of a status in a list of statuses.
\<close>

definition spec_overall_status :: "nat \<Rightarrow> nat \<Rightarrow> nat \<Rightarrow> nat \<Rightarrow> ServiceStatus" where
  "spec_overall_status N h d u =
     (if u = N \<and> N > 0 then UNHEALTHY
      else if u > 0 \<or> d > 0 then DEGRADED
      else if h > 0 then HEALTHY
      else UNKNOWN)"

definition count_of :: "ServiceStatus \<Rightarrow> ServiceStatus list \<Rightarrow> nat" where
  "count_of st sts = length (filter (\<lambda>x. x = st) sts)"

section \<open>Sample data\<close>

text \<open>
  A platform for the examples. Its \<open>URL\<close> functions give the URL Standard's answers for
  the inputs the examples use: an \<open>http\<close> or \<open>https\<close> base in normal form (lower-case
  host, no default port, no query or fragment) and an input that is an absolute path
  (one leading slash) of characters that are neither dot segments nor percent-encoded;
  the result then is the base's scheme and authority followed by the input, and a query
  parameter of letters and digits is appended as \<open>key=value\<close>. Its network plays a list
  of outcomes, one per outbound request in order.
\<close>

definition sample_URL_new :: "string \<Rightarrow> string \<Rightarrow> string option" where
  "sample_URL_new input base =
     (let n = (if take 7 base = ''http://'' then 7 else 8)
      in if take 1 input = ''/'' \<and> take 2 input \<noteq> ''//''
            \<and> (take 7 base = ''http://'' \<or> take 8 base = ''https://'')
         then Some (take n base @ takeWhile (\<lambda>c. c \<noteq> CHR ''/'') (drop n base) @ input)
         else None)"

definition sample_URL_append :: "string \<Rightarrow> string \<Rightarrow> string \<Rightarrow> string" where
  "sample_URL_append href key val =
     href @ (if CHR ''?'' \<in> set href then ''&'' else ''?'') @ key @ ''='' @ val"

definition sample_platform :: "(nat \<times> FetchResult) list \<Rightarrow> platform" where
  "sample_platform outcomes =
     \<lparr>network = (\<lambda>n req. if n < length outcomes then outcomes ! n
                           else (0, NetworkFailure ''fetch failed'')),
      URL_canParse = (\<lambda>v. take 7 v = ''http://'' \<or> take 8 v = ''https://''),
      URL_new = sample_URL_new,
      URL_append = sample_URL_append\<rparr>"

definition sample_service :: "string \<Rightarrow> string \<Rightarrow> ServiceType \<Rightarrow> ServiceStatus \<Rightarrow> Service" where
  "sample_service i base ty st =
     \<lparr>s_id = i, s_name = i, s_type = ty, s_baseUrl = base, s_healthEndpoint = ''/health'',
      s_capabilities = [], s_metadata = JObject [], s_version = ''1.0.0'',
      s_registeredAt = 1000, s_status = st, s_lastHealthCheck = None, s_lastSeenAt = 1000\<rparr>"

definition sample_world :: "Service list \<Rightarrow> world" where
  "sample_world svcs =
     \<lparr>services = svcs, clock = 5000, outbound = [], bus = new_EventService\<rparr>"

definition ok_response :: "nat \<Rightarrow> string \<Rightarrow> HttpResponse" where
  "ok_response st txt =
     \<lparr>res_status = st, res_headers = [(''content-type'', ''text/plain'')],
      res_text = txt, res_json = Inl ''Unexpected token''\<rparr>"

definition sample_request :: "string \<Rightarrow> ProxyRequest" where
  "sample_request i =
     \<lparr>pr_serviceId = i, pr_method = ''GET'', pr_path = ''/users'', pr_headers = None,
      pr_body = JUndefined, pr_query = None, pr_timeout = None\<rparr>"

definition sample_directory :: "Service list" where
  "sample_directory =
     [sample_service ''a'' ''http://a.local'' AGENT HEALTHY,
      sample_service ''b'' ''http://b.local'' AGENT UNHEALTHY,
      sample_service ''c'' ''http://c.local'' API DEGRADED,
      sample_service ''d'' ''http://d.local'' AGENT DEGRADED,
      sample_service ''e'' ''http://e.local'' AGENT STARTING]"



definition sample_event :: "nat \<Rightarrow> DomainEvent" where
  "sample_event n =
     \<lparr>ev_type = SERVICE_REGISTERED, ev_serviceId = None, ev_timestamp = n, ev_data = None\<rparr>"

section \<open>Ring buffer of recent events\<close>

lemma recentEvents_emit:
  "recentEvents (emit e es) =
     (if length (recentEvents es) \<ge> maxRecentEvents then e # butlast (recentEvents es)
      else e # recentEvents es)"
  by (cases "recentEvents es")
     (simp_all add: emit_def Let_def Array_unshift_def Array_pop_def maxRecentEvents_def)

lemma take_Suc_butlast:
  "0 < n \<Longrightarrow> length xs \<le> n \<Longrightarrow>
   take n (x # xs) = (if length xs = n then x # butlast xs else x # xs)"
  by (cases n) (auto simp: butlast_conv_take)

lemma recentEvents_emit_take:
  assumes "length (recentEvents es) \<le> maxRecentEvents"
  shows "recentEvents (emit e es) = take maxRecentEvents (e # recentEvents es)"
  using assms take_Suc_butlast[of maxRecentEvents "recentEvents es" e]
  by (auto simp: recentEvents_emit maxRecentEvents_def)

lemma recentEvents_emit_all_gen:
  "length (recentEvents es) \<le> maxRecentEvents \<Longrightarrow>
   recentEvents (emit_all events es) = take maxRecentEvents (rev events @ recentEvents es)"
proof (induction events arbitrary: es)
  case Nil
  then show ?case by (simp add: emit_all_def)
next
  case (Cons e events)
  have len: "length (recentEvents (emit e es)) \<le> maxRecentEvents"
    using Cons.prems by (simp add: recentEvents_emit_take)
  have "recentEvents (emit_all (e # events) es) = recentEvents (emit_all events (emit e es))"
    by (simp add: emit_all_def)
  also have "\<dots> = take maxRecentEvents (rev events @ recentEvents (emit e es))"
    using Cons.IH[OF len] .
  also have "\<dots> = take maxRecentEvents (rev events @ take maxRecentEvents (e # recentEvents es))"
    using Cons.prems by (simp add: recentEvents_emit_take)
  also have "\<dots> = take maxRecentEvents (rev (e # events) @ recentEvents es)"
    by (simp add: take_all_iff min_def)
  finally show ?case .
qed

lemma recentEvents_emit_all_new:
  "recentEvents (emit_all events new_EventService) = take 100 (rev events)"
  using recentEvents_emit_all_gen[of new_EventService events]
  by (simp add: new_EventService_def maxRecentEvents_def)

lemma Array_slice_0_nonneg:
  "0 \<le> lim \<Longrightarrow> Array_slice xs 0 lim = take (nat lim) xs"
  by (simp add: Array_slice_def slice_index_def Let_def min_def)

lemma Array_slice_0_neg:
  "lim < 0 \<Longrightarrow> Array_slice xs 0 lim = take (length xs - nat (- lim)) xs"
proof -
  assume neg: "lim < 0"
  have "nat (max (int (length xs) + lim) 0) = length xs - nat (- lim)"
    using neg by (auto simp: max_def)
  then show ?thesis
    using neg by (simp add: Array_slice_def slice_index_def Let_def)
qed

text \<open>
  C8 (as stated, refuted at a negative limit). The claim says that \<open>getRecentEvents(limit)\<close>
  returns up to \<open>limit\<close> events. With three events in the history, the call with limit
  \<open>-1\<close> returns two events: \<open>slice(0, -1)\<close> counts the end from the back of the array.
\<close>

theorem getRecentEvents_negative_limit_counterexample:
  "fst (getRecentEvents (Some (- 1))
          (emit_all [sample_event 1, sample_event 2, sample_event 3] new_EventService))
     = [sample_event 3, sample_event 2]
   \<and> \<not> int (length (fst (getRecentEvents (Some (- 1))
          (emit_all [sample_event 1, sample_event 2, sample_event 3] new_EventService)))) \<le> - 1"
  by (simp add: getRecentEvents_def Array_slice_def slice_index_def Let_def
      recentEvents_emit_all_new)

text \<open>
  C8 (amended). After any sequence of \<open>k\<close> events has been emitted into a new bus, the
  history holds exactly the \<open>min k 100\<close> most recently emitted events, newest first, so
  never more than 100. \<open>getRecentEvents(limit)\<close> leaves the bus as it was and returns an
  initial part of the history, so newest first, for every limit; for a limit \<open>\<ge> 0\<close> it
  is the \<open>min limit (min k 100)\<close> newest events, and the 50 newest when no limit is given.
\<close>

theorem ring_buffer_bound:
  "recentEvents (emit_all events new_EventService) = take 100 (rev events)
   \<and> length (recentEvents (emit_all events new_EventService)) = min (length events) 100
   \<and> (0 \<le> limit \<longrightarrow>
        getRecentEvents (Some limit) (emit_all events new_EventService)
          = (take (min (nat limit) 100) (rev events), emit_all events new_EventService))
   \<and> getRecentEvents None (emit_all events new_EventService)
          = (take 50 (rev events), emit_all events new_EventService)
   \<and> snd (getRecentEvents (Some limit) (emit_all events new_EventService))
          = emit_all events new_EventService
   \<and> (\<exists>n. fst (getRecentEvents (Some limit) (emit_all events new_EventService))
             = take n (rev events))"
proof -
  let ?es = "emit_all events new_EventService"
  have hist: "recentEvents ?es = take 100 (rev events)"
    by (rule recentEvents_emit_all_new)
  have len: "length (recentEvents ?es) = min (length events) 100"
    by (simp add: hist)
  have nonneg: "getRecentEvents (Some limit) ?es = (take (min (nat limit) 100) (rev events), ?es)"
    if "0 \<le> limit"
    using that by (simp add: getRecentEvents_def Array_slice_0_nonneg hist)
  have dflt: "getRecentEvents None ?es = (take 50 (rev events), ?es)"
    by (simp add: getRecentEvents_def Array_slice_0_nonneg hist)
  have same: "snd (getRecentEvents (Some limit) ?es) = ?es"
    by (simp add: getRecentEvents_def)
  have neg: "fst (getRecentEvents (Some limit) ?es)
               = take (min (length events) 100 - nat (- limit)) (rev events)"
    if "limit < 0"
  proof -
    have "Array_slice (recentEvents ?es) 0 limit
            = take (min (length events) 100 - nat (- limit)) (take 100 (rev events))"
      using that Array_slice_0_neg[of limit "recentEvents ?es"] by (simp add: hist)
    also have "\<dots> = take (min (length events) 100 - nat (- limit)) (rev events)"
      by (simp add: min_def)
    finally show ?thesis by (simp add: getRecentEvents_def)
  qed
  have prefix: "\<exists>n. fst (getRecentEvents (Some limit) ?es) = take n (rev events)"
  proof (cases "0 \<le> limit")
    case True
    then show ?thesis using nonneg by auto
  next
    case False
    then show ?thesis using neg by auto
  qed
  from hist len nonneg dflt same prefix show ?thesis by blast
qed

theorem ring_buffer_bound_witness:
  "fst (getRecentEvents (Some 2)
          (emit_all [sample_event 1, sample_event 2, sample_event 3] new_EventService))
     = [sample_event 3, sample_event 2]
   \<and> length (recentEvents (emit_all (map sample_event [0..<150]) new_EventService)) = 100"
  using ring_buffer_bound[of "[sample_event 1, sample_event 2, sample_event 3]" 2]
    ring_buffer_bound[of "map sample_event [0..<150]" 0]
  by simp

section \<open>The repository and the active check\<close>

lemma findById_save:
  "findById (save s repo) i = (if i = s_id s then Some s else findById repo i)"
  by (induction repo) (auto simp: findById_def)

lemma findById_Some_id: "findById repo i = Some s \<Longrightarrow> s_id s = i"
  by (auto simp: findById_def find_Some_iff)

lemma checkServiceHealth_effect:
  assumes found: "findById (services w) sid = Some service"
    and run: "checkServiceHealth pf sid w = (result, w')"
  shows "services w' = save (service\<lparr>s_lastHealthCheck := Some result,
                  s_status := hc_status result, s_lastSeenAt := hc_timestamp result\<rparr>) (services w)"
    and "hc_timestamp result = clock w'"
    and "outbound w' = outbound w @ [health_request service]"
    and "bus w' = bus w"
    and "hc_status result \<in> {HEALTHY, UNHEALTHY, DEGRADED}"
  using run found
  by (auto simp: checkServiceHealth_def fetch_def Let_def classify_def
      updateHealthStatus_def split: prod.splits sum.splits FetchResult.splits if_splits)

lemma checkServiceHealth_status:
  assumes found: "findById (services w) sid = Some service"
    and net: "network pf (length (outbound w)) (health_request service) = (elapsed, res)"
  shows "hc_status (fst (checkServiceHealth pf sid w)) =
           (if HEALTH_CHECK_TIMEOUT_MS \<le> elapsed then UNHEALTHY
            else case res of
                   NetworkFailure msg \<Rightarrow> UNHEALTHY
                 | Response r \<Rightarrow>
                     if 200 \<le> res_status r \<and> res_status r \<le> 299 then HEALTHY
                     else if 500 \<le> res_status r then UNHEALTHY
                     else DEGRADED)"
  using found net
  by (auto simp: checkServiceHealth_def fetch_def Let_def classify_def response_ok_def
      split: prod.splits sum.splits FetchResult.splits if_splits)

lemma new_Service_id:
  "new_Service canParse now props = Inr service \<Longrightarrow> s_id service = p_id props"
  by (auto simp: new_Service_def split: sum.splits)

lemma map_id_save_found:
  "findById repo (s_id s) \<noteq> None \<Longrightarrow> map s_id (save s repo) = map s_id repo"
  by (induction repo) (auto simp: findById_def)


section \<open>Active check: classification and persistence\<close>

text \<open>
  C6. For a registered service, the status of an active check follows the outcome of its
  one request: a timeout (the exchange takes 5000 ms or longer) or a network failure
  gives unhealthy; a response with a status from 200 to 299 gives healthy, one with a
  status of 500 or more unhealthy, any other response degraded. In each case the entry
  of the service afterwards is the old entry with its status, its cached result and its
  last-seen time replaced by the status, the whole of the new result and its timestamp
  (the time the check ended); no other entry changes, and the one request of the check
  is the GET to the health URL.
\<close>

theorem active_check_classification:
  assumes found: "findById (services w) sid = Some service"
    and net: "network pf (length (outbound w)) (health_request service) = (elapsed, res)"
  shows "hc_status (fst (checkServiceHealth pf sid w)) =
           (if HEALTH_CHECK_TIMEOUT_MS \<le> elapsed then UNHEALTHY
            else case res of
                   NetworkFailure msg \<Rightarrow> UNHEALTHY
                 | Response r \<Rightarrow>
                     if 200 \<le> res_status r \<and> res_status r \<le> 299 then HEALTHY
                     else if 500 \<le> res_status r then UNHEALTHY
                     else DEGRADED)
         \<and> (\<forall>j. findById (services (snd (checkServiceHealth pf sid w))) j =
               (if j = sid
                then Some (service\<lparr>s_status := hc_status (fst (checkServiceHealth pf sid w)),
                                  s_lastHealthCheck := Some (fst (checkServiceHealth pf sid w)),
                                  s_lastSeenAt := hc_timestamp (fst (checkServiceHealth pf sid w))\<rparr>)
                else findById (services w) j))
         \<and> hc_timestamp (fst (checkServiceHealth pf sid w)) = clock (snd (checkServiceHealth pf sid w))
         \<and> outbound (snd (checkServiceHealth pf sid w)) = outbound w @ [health_request service]"
proof -
  have sid: "s_id service = sid" using found by (rule findById_Some_id)
  obtain result w' where run: "checkServiceHealth pf sid w = (result, w')"
    by (cases "checkServiceHealth pf sid w")
  note eff = checkServiceHealth_effect[OF found run]
  have st: "hc_status result =
           (if HEALTH_CHECK_TIMEOUT_MS \<le> elapsed then UNHEALTHY
            else case res of
                   NetworkFailure msg \<Rightarrow> UNHEALTHY
                 | Response r \<Rightarrow>
                     if 200 \<le> res_status r \<and> res_status r \<le> 299 then HEALTHY
                     else if 500 \<le> res_status r then UNHEALTHY
                     else DEGRADED)"
    using checkServiceHealth_status[OF found net] by (simp add: run)
  have upd: "service\<lparr>s_lastHealthCheck := Some result,
                  s_status := hc_status result, s_lastSeenAt := hc_timestamp result\<rparr>
             = service\<lparr>s_status := hc_status result, s_lastHealthCheck := Some result,
                  s_lastSeenAt := hc_timestamp result\<rparr>" by simp
  show ?thesis
    using st eff(2) eff(3) sid by (simp add: run eff(1) findById_save upd)
qed

theorem active_check_classification_witness:
  "hc_status (fst (checkServiceHealth (sample_platform [(20, Response (ok_response 404 ''no''))])
      ''a'' (sample_world [sample_service ''a'' ''http://a.local'' AGENT STARTING]))) = DEGRADED
   \<and> hc_status (fst (checkServiceHealth (sample_platform [(20, Response (ok_response 204 []))])
      ''a'' (sample_world [sample_service ''a'' ''http://a.local'' AGENT STARTING]))) = HEALTHY
   \<and> hc_status (fst (checkServiceHealth (sample_platform [(20, Response (ok_response 503 []))])
      ''a'' (sample_world [sample_service ''a'' ''http://a.local'' AGENT STARTING]))) = UNHEALTHY
   \<and> hc_status (fst (checkServiceHealth (sample_platform [(20, NetworkFailure ''refused'')])
      ''a'' (sample_world [sample_service ''a'' ''http://a.local'' AGENT STARTING]))) = UNHEALTHY
   \<and> hc_status (fst (checkServiceHealth (sample_platform [(5000, Response (ok_response 200 []))])
      ''a'' (sample_world [sample_service ''a'' ''http://a.local'' AGENT STARTING]))) = UNHEALTHY"
proof -
  let ?svc = "sample_service ''a'' ''http://a.local'' AGENT STARTING"
  let ?w = "sample_world [?svc]"
  have found: "findById (services ?w) ''a'' = Some ?svc"
    by (simp add: sample_world_def findById_def sample_service_def)
  have net: "network (sample_platform [o1]) (length (outbound ?w)) (health_request ?svc) = (fst o1, snd o1)"
    for o1
    by (simp add: sample_platform_def sample_world_def)
  show ?thesis
    using active_check_classification[OF found net, of "(20, Response (ok_response 404 ''no''))"]
      active_check_classification[OF found net, of "(20, Response (ok_response 204 []))"]
      active_check_classification[OF found net, of "(20, Response (ok_response 503 []))"]
      active_check_classification[OF found net, of "(20, NetworkFailure ''refused'')"]
      active_check_classification[OF found net, of "(5000, Response (ok_response 200 []))"]
    by (simp add: HEALTH_CHECK_TIMEOUT_MS_def ok_response_def)
qed


section \<open>Overall status of the two summaries\<close>

lemma count_status_fields:
  "healthy (count_status st c) = healthy c + (if st = HEALTHY then 1 else 0)"
  "unhealthy (count_status st c) = unhealthy c + (if st = UNHEALTHY then 1 else 0)"
  "degraded (count_status st c) = degraded c + (if st = DEGRADED then 1 else 0)"
  "unknown_count (count_status st c) =
     unknown_count c + (if st \<notin> {HEALTHY, UNHEALTHY, DEGRADED} then 1 else 0)"
  by (cases st; simp add: count_status_def)+

lemma aggregated_loop_counts:
  "healthy (fst (aggregated_loop svcs (c, ds))) = healthy c + count_of HEALTHY (map s_status svcs)
   \<and> unhealthy (fst (aggregated_loop svcs (c, ds))) = unhealthy c + count_of UNHEALTHY (map s_status svcs)
   \<and> degraded (fst (aggregated_loop svcs (c, ds))) = degraded c + count_of DEGRADED (map s_status svcs)
   \<and> map d_status (snd (aggregated_loop svcs (c, ds))) = map d_status ds @ map s_status svcs"
  by (induction svcs arbitrary: c ds) (simp_all add: count_status_fields count_of_def)

lemma checkAll_loop_counts:
  "case checkAll_loop pf svcs (c, ds, w) of
     (c', ds', w') \<Rightarrow>
       (\<exists>sts. length sts = length svcs
          \<and> map d_status ds' = map d_status ds @ sts
          \<and> healthy c' = healthy c + count_of HEALTHY sts
          \<and> unhealthy c' = unhealthy c + count_of UNHEALTHY sts
          \<and> degraded c' = degraded c + count_of DEGRADED sts)"
proof (induction svcs arbitrary: c ds w)
  case Nil
  then show ?case by (simp add: count_of_def)
next
  case (Cons service rest)
  obtain r w1 where step: "checkServiceHealth pf (s_id service) w = (r, w1)"
    by (cases "checkServiceHealth pf (s_id service) w")
  let ?c1 = "count_status (hc_status r) c"
  let ?d = "\<lparr>d_serviceId = s_id service, d_serviceName = s_name service,
                         d_status = hc_status r,
                         d_lastCheck = Some (hc_timestamp r),
                         d_responseTimeMs = Some (hc_responseTimeMs r),
                         d_error = (case hc_details r of
                                      Some (JObject kvs) \<Rightarrow> map_of kvs ''error''
                                    | _ \<Rightarrow> None)\<rparr>"
  obtain c' ds' w' where rest: "checkAll_loop pf rest (?c1, ds @ [?d], w1) = (c', ds', w')"
    by (cases "checkAll_loop pf rest (?c1, ds @ [?d], w1)")
  from Cons.IH[where c = ?c1 and ds = "ds @ [?d]" and w = w1] rest
  obtain sts where sts: "length sts = length rest"
      "map d_status ds' = map d_status (ds @ [?d]) @ sts"
      "healthy c' = healthy ?c1 + count_of HEALTHY sts"
      "unhealthy c' = unhealthy ?c1 + count_of UNHEALTHY sts"
      "degraded c' = degraded ?c1 + count_of DEGRADED sts"
    by auto
  have "checkAll_loop pf (service # rest) (c, ds, w) = (c', ds', w')"
    using step rest by simp
  moreover have "length (hc_status r # sts) = length (service # rest)"
    using sts(1) by simp
  moreover have "map d_status ds' = map d_status ds @ (hc_status r # sts)"
    using sts(2) by simp
  moreover have "healthy c' = healthy c + count_of HEALTHY (hc_status r # sts)"
    "unhealthy c' = unhealthy c + count_of UNHEALTHY (hc_status r # sts)"
    "degraded c' = degraded c + count_of DEGRADED (hc_status r # sts)"
    using sts(3-5) by (auto simp: count_status_fields count_of_def)
  ultimately show ?case by (simp only: prod.case) blast
qed

lemma overall_eq:
  "(if u > 0 then (if N = u then UNHEALTHY else DEGRADED)
    else if d > 0 then DEGRADED else if h > 0 then HEALTHY else UNKNOWN)
   = spec_overall_status N h d (u::nat)"
  by (auto simp: spec_overall_status_def)

text \<open>
  C2. The overall status of the cached-only summary is the specification's derivation
  applied to the number \<open>N\<close> of services in the directory and to the numbers of them
  whose stored status is healthy, degraded and unhealthy; the overall status of the fresh
  check-all summary is the same derivation applied to \<open>N\<close> and to the numbers of services
  whose fresh check came out healthy, degraded and unhealthy (the statuses of the
  summary's details, one per service). Each summary's overall status is that derivation
  applied to the total and the counters the summary itself reports.
\<close>

theorem overall_status_aggregation:
  "agg_status (getAggregatedHealth w)
     = spec_overall_status (length (services w))
         (count_of HEALTHY (map s_status (services w)))
         (count_of DEGRADED (map s_status (services w)))
         (count_of UNHEALTHY (map s_status (services w)))
   \<and> agg_status (fst (checkAllServices pf w))
     = spec_overall_status (length (services w))
         (count_of HEALTHY (map d_status (agg_details (fst (checkAllServices pf w)))))
         (count_of DEGRADED (map d_status (agg_details (fst (checkAllServices pf w)))))
         (count_of UNHEALTHY (map d_status (agg_details (fst (checkAllServices pf w)))))
   \<and> length (agg_details (fst (checkAllServices pf w))) = length (services w)
   \<and> agg_status (getAggregatedHealth w)
     = spec_overall_status (agg_total (getAggregatedHealth w)) (agg_healthy (getAggregatedHealth w))
         (agg_degraded (getAggregatedHealth w)) (agg_unhealthy (getAggregatedHealth w))
   \<and> agg_status (fst (checkAllServices pf w))
     = spec_overall_status (agg_total (fst (checkAllServices pf w)))
         (agg_healthy (fst (checkAllServices pf w)))
         (agg_degraded (fst (checkAllServices pf w)))
         (agg_unhealthy (fst (checkAllServices pf w)))"
proof -
  obtain c ds where agg: "aggregated_loop (services w) (zero_counters, []) = (c, ds)"
    by (cases "aggregated_loop (services w) (zero_counters, [])")
  have cnt: "healthy c = count_of HEALTHY (map s_status (services w))"
    "unhealthy c = count_of UNHEALTHY (map s_status (services w))"
    "degraded c = count_of DEGRADED (map s_status (services w))"
    using aggregated_loop_counts[where svcs = "services w" and c = zero_counters and ds = "[]"] agg
    by (simp_all add: zero_counters_def)
  have resc: "getAggregatedHealth w =
        \<lparr>agg_status = spec_overall_status (length (services w)) (healthy c) (degraded c) (unhealthy c),
         agg_timestamp = clock w,
         agg_total = length (services w), agg_healthy = healthy c,
         agg_unhealthy = unhealthy c, agg_degraded = degraded c,
         agg_unknown = unknown_count c, agg_details = ds\<rparr>"
    unfolding getAggregatedHealth_def findAll_def Let_def agg prod.case overall_eq
    by simp
  have cached: "agg_status (getAggregatedHealth w)
     = spec_overall_status (length (services w))
         (count_of HEALTHY (map s_status (services w)))
         (count_of DEGRADED (map s_status (services w)))
         (count_of UNHEALTHY (map s_status (services w)))"
    by (simp add: resc cnt)
  have own_cached: "agg_status (getAggregatedHealth w)
     = spec_overall_status (agg_total (getAggregatedHealth w)) (agg_healthy (getAggregatedHealth w))
         (agg_degraded (getAggregatedHealth w)) (agg_unhealthy (getAggregatedHealth w))"
    by (simp add: resc)
  obtain c' ds' w' where chk: "checkAll_loop pf (services w) (zero_counters, [], w) = (c', ds', w')"
    by (cases "checkAll_loop pf (services w) (zero_counters, [], w)")
  have sts: "length ds' = length (services w)"
      "healthy c' = count_of HEALTHY (map d_status ds')"
      "unhealthy c' = count_of UNHEALTHY (map d_status ds')"
      "degraded c' = count_of DEGRADED (map d_status ds')"
    using checkAll_loop_counts[where pf = pf and svcs = "services w" and c = zero_counters
        and ds = "[]" and w = w] chk
    by (auto simp: zero_counters_def)
  have res: "fst (checkAllServices pf w) =
        \<lparr>agg_status = spec_overall_status (length (services w)) (healthy c') (degraded c') (unhealthy c'),
         agg_timestamp = clock w',
         agg_total = length (services w), agg_healthy = healthy c',
         agg_unhealthy = unhealthy c', agg_degraded = degraded c',
         agg_unknown = unknown_count c', agg_details = ds'\<rparr>"
    unfolding checkAllServices_def findAll_def Let_def chk prod.case overall_eq
    by simp
  have fresh: "agg_status (fst (checkAllServices pf w))
     = spec_overall_status (length (services w))
         (count_of HEALTHY (map d_status (agg_details (fst (checkAllServices pf w)))))
         (count_of DEGRADED (map d_status (agg_details (fst (checkAllServices pf w)))))
         (count_of UNHEALTHY (map d_status (agg_details (fst (checkAllServices pf w)))))"
    by (simp add: res sts)
  have len: "length (agg_details (fst (checkAllServices pf w))) = length (services w)"
    using sts(1) by (simp add: res)
  have own_fresh: "agg_status (fst (checkAllServices pf w))
     = spec_overall_status (agg_total (fst (checkAllServices pf w)))
         (agg_healthy (fst (checkAllServices pf w)))
         (agg_degraded (fst (checkAllServices pf w)))
         (agg_unhealthy (fst (checkAllServices pf w)))"
    by (simp add: res)
  from cached fresh len own_cached own_fresh show ?thesis by blast
qed


section \<open>Registration and heartbeat\<close>

text \<open>
  C4. When the identifier derived from the request's name is already in the directory,
  \<open>registerService\<close> returns the snapshot of the existing entry with only its last-seen
  time set to the time of the call; that entry is stored in place of the old one, no
  other entry, no request, no event and no clock reading changes, and any request with
  the same derived identifier gives the same outcome, whatever its other fields are.
\<close>

theorem idempotent_reregistration:
  assumes existing: "findById (services w) (generateServiceId (r_name request)) = Some existing"
  shows "fst (registerService pf check request w)
           = Inr (toSnapshot (existing\<lparr>s_lastSeenAt := clock w\<rparr>))
       \<and> (\<forall>j. findById (services (snd (registerService pf check request w))) j =
              (if j = generateServiceId (r_name request)
               then Some (existing\<lparr>s_lastSeenAt := clock w\<rparr>)
               else findById (services w) j))
       \<and> map s_id (services (snd (registerService pf check request w))) = map s_id (services w)
       \<and> snd (registerService pf check request w)
           = w\<lparr>services := services (snd (registerService pf check request w))\<rparr>
       \<and> (\<forall>request'. generateServiceId (r_name request') = generateServiceId (r_name request) \<longrightarrow>
             registerService pf check request' w = registerService pf check request w)"
proof -
  have sid: "s_id existing = generateServiceId (r_name request)"
    using existing by (rule findById_Some_id)
  have run: "registerService pf check request w =
      (Inr (toSnapshot (existing\<lparr>s_lastSeenAt := clock w\<rparr>)),
       w\<lparr>services := save (existing\<lparr>s_lastSeenAt := clock w\<rparr>) (services w)\<rparr>)"
    using existing by (simp add: registerService_def Let_def touch_def)
  have same: "registerService pf check request' w = registerService pf check request w"
    if "generateServiceId (r_name request') = generateServiceId (r_name request)" for request'
    using existing that by (simp add: registerService_def Let_def)
  have ids: "map s_id (save (existing\<lparr>s_lastSeenAt := clock w\<rparr>) (services w)) = map s_id (services w)"
    using existing sid by (intro map_id_save_found) simp
  show ?thesis
    using sid same ids by (simp add: run findById_save)
qed

theorem idempotent_reregistration_witness:
  "fst (registerService (sample_platform []) (healthService (sample_platform []))
          \<lparr>r_name = ''Payment Agent'', r_type = API, r_baseUrl = ''http://other.local'',
           r_healthEndpoint = Some ''/ping'', r_capabilities = None, r_metadata = None,
           r_version = Some ''2.0.0''\<rparr>
          (sample_world [sample_service ''payment-agent'' ''http://a.local'' AGENT HEALTHY]))
     = Inr (toSnapshot ((sample_service ''payment-agent'' ''http://a.local'' AGENT HEALTHY)
                          \<lparr>s_lastSeenAt := 5000\<rparr>))"
proof -
  let ?svc = "sample_service ''payment-agent'' ''http://a.local'' AGENT HEALTHY"
  let ?w = "sample_world [?svc]"
  let ?req = "\<lparr>r_name = ''Payment Agent'', r_type = API, r_baseUrl = ''http://other.local'',
           r_healthEndpoint = Some ''/ping'', r_capabilities = None, r_metadata = None,
           r_version = Some ''2.0.0''\<rparr>"
  have slug: "generateServiceId ''Payment Agent'' = ''payment-agent''"
    by code_simp
  have found: "findById (services ?w) (generateServiceId (r_name ?req)) = Some ?svc"
    by (simp add: slug sample_world_def findById_def sample_service_def)
  have "fst (registerService (sample_platform []) (healthService (sample_platform [])) ?req ?w)
          = Inr (toSnapshot (?svc\<lparr>s_lastSeenAt := clock ?w\<rparr>))"
    using idempotent_reregistration[OF found, of "sample_platform []" "healthService (sample_platform [])"]
    by (rule conjunct1)
  then show ?thesis
    by (simp add: sample_world_def)
qed


text \<open>
  C10. A heartbeat for an identifier that is not in the directory returns normally and
  leaves the whole state as it was, where \<open>getService\<close> and \<open>deregisterService\<close> fail
  with NOT_FOUND; for an identifier that is present it returns normally, and the only
  change is that the entry's last-seen time becomes the time of the call.
\<close>

theorem heartbeat_unknown_id:
  "(findById (services w) serviceId = None \<longrightarrow>
      heartbeat serviceId w = (Inr (), w)
      \<and> (\<exists>msg. getService serviceId w = Inl (DomainError NOT_FOUND msg 404))
      \<and> (\<exists>msg. deregisterService serviceId w = (Inl (DomainError NOT_FOUND msg 404), w)))
   \<and> (\<forall>service. findById (services w) serviceId = Some service \<longrightarrow>
        fst (heartbeat serviceId w) = Inr ()
        \<and> (\<forall>j. findById (services (snd (heartbeat serviceId w))) j =
              (if j = serviceId then Some (service\<lparr>s_lastSeenAt := clock w\<rparr>)
               else findById (services w) j))
        \<and> map s_id (services (snd (heartbeat serviceId w))) = map s_id (services w)
        \<and> snd (heartbeat serviceId w) = w\<lparr>services := services (snd (heartbeat serviceId w))\<rparr>)"
proof -
  have absent: "heartbeat serviceId w = (Inr (), w)
      \<and> (\<exists>msg. getService serviceId w = Inl (DomainError NOT_FOUND msg 404))
      \<and> (\<exists>msg. deregisterService serviceId w = (Inl (DomainError NOT_FOUND msg 404), w))"
    if "findById (services w) serviceId = None"
    using that by (simp add: heartbeat_def getService_def deregisterService_def throwIfNull_def)
  have present: "fst (heartbeat serviceId w) = Inr ()
        \<and> (\<forall>j. findById (services (snd (heartbeat serviceId w))) j =
              (if j = serviceId then Some (service\<lparr>s_lastSeenAt := clock w\<rparr>)
               else findById (services w) j))
        \<and> map s_id (services (snd (heartbeat serviceId w))) = map s_id (services w)
        \<and> snd (heartbeat serviceId w) = w\<lparr>services := services (snd (heartbeat serviceId w))\<rparr>"
    if found: "findById (services w) serviceId = Some service" for service
  proof -
    have sid: "s_id service = serviceId" using found by (rule findById_Some_id)
    have ids: "map s_id (save (service\<lparr>s_lastSeenAt := clock w\<rparr>) (services w)) = map s_id (services w)"
      using found sid by (intro map_id_save_found) simp
    show ?thesis using found sid ids by (simp add: heartbeat_def touch_def findById_save)
  qed
  from absent present show ?thesis by blast
qed

theorem heartbeat_unknown_id_witness:
  "heartbeat ''ghost'' (sample_world [sample_service ''a'' ''http://a.local'' AGENT HEALTHY])
     = (Inr (), sample_world [sample_service ''a'' ''http://a.local'' AGENT HEALTHY])
   \<and> findById (services (snd (heartbeat ''a''
         (sample_world [sample_service ''a'' ''http://a.local'' AGENT HEALTHY])))) ''a''
     = Some ((sample_service ''a'' ''http://a.local'' AGENT HEALTHY)\<lparr>s_lastSeenAt := 5000\<rparr>)"
proof -
  let ?svc = "sample_service ''a'' ''http://a.local'' AGENT HEALTHY"
  let ?w = "sample_world [?svc]"
  have absent: "findById (services ?w) ''ghost'' = None"
    by (simp add: sample_world_def findById_def sample_service_def)
  have present: "findById (services ?w) ''a'' = Some ?svc"
    by (simp add: sample_world_def findById_def sample_service_def)
  show ?thesis
    using heartbeat_unknown_id[of ?w "''ghost''"] heartbeat_unknown_id[of ?w "''a''"]
      absent present
    by (simp add: sample_world_def)
qed


text \<open>
  C9. For a request whose derived identifier is not in the directory and which passes
  the constructor's validation, \<open>registerService\<close> stores the new service, calls the
  injected health service once on the world with the service stored, and returns a
  snapshot whatever that call does, also when it throws: the directory and the requests
  issued after \<open>registerService\<close> are those the check left, so nothing is removed on a
  failure; the snapshot is that of the entry the check left under the identifier, and
  when the check throws and leaves the world as it was, the new service is registered
  as constructed and its snapshot is returned. With the \<open>HealthService\<close> of the process,
  exactly one request goes out before the call returns, the GET of the active check of
  the new service; the service is in the directory afterwards, the snapshot returned is
  the snapshot of that entry, and the entry is the new service with the status, the
  result and the time of the check, whose status is healthy, unhealthy or degraded: a
  failed check is recorded, it does not fail the registration.
\<close>

theorem registration_initial_health_check:
  assumes fresh: "findById (services w) (generateServiceId (r_name request)) = None"
    and valid: "new_Service (URL_canParse pf) (clock w)
                  (service_props (generateServiceId (r_name request)) request) = Inr service"
  shows "(\<exists>snapshot. fst (registerService pf check request w) = Inr snapshot)
       \<and> outbound (snd (registerService pf (healthService pf) request w))
           = outbound w @ [health_request service]
       \<and> (\<exists>stored result.
             findById (services (snd (registerService pf (healthService pf) request w)))
               (generateServiceId (r_name request)) = Some stored
           \<and> fst (registerService pf (healthService pf) request w) = Inr (toSnapshot stored)
           \<and> stored = service\<lparr>s_status := hc_status result, s_lastHealthCheck := Some result,
                               s_lastSeenAt := hc_timestamp result\<rparr>
           \<and> hc_status result \<in> {HEALTHY, UNHEALTHY, DEGRADED})
       \<and> findById (save service (services w)) (generateServiceId (r_name request)) = Some service
       \<and> services (snd (registerService pf check request w))
           = services (snd (check (generateServiceId (r_name request))
                              (w\<lparr>services := save service (services w)\<rparr>)))
       \<and> outbound (snd (registerService pf check request w))
           = outbound (snd (check (generateServiceId (r_name request))
                              (w\<lparr>services := save service (services w)\<rparr>)))
       \<and> (\<forall>stored.
             findById (services (snd (check (generateServiceId (r_name request))
                                        (w\<lparr>services := save service (services w)\<rparr>))))
               (generateServiceId (r_name request)) = Some stored \<longrightarrow>
             fst (registerService pf check request w) = Inr (toSnapshot stored)
             \<and> findById (services (snd (registerService pf check request w)))
                  (generateServiceId (r_name request)) = Some stored)
       \<and> (\<forall>e. check (generateServiceId (r_name request))
                   (w\<lparr>services := save service (services w)\<rparr>)
                 = (Inl e, w\<lparr>services := save service (services w)\<rparr>) \<longrightarrow>
             fst (registerService pf check request w) = Inr (toSnapshot service)
             \<and> services (snd (registerService pf check request w)) = save service (services w)
             \<and> findById (services (snd (registerService pf check request w)))
                  (generateServiceId (r_name request)) = Some service)"
proof -
  let ?sid = "generateServiceId (r_name request)"
  let ?w1 = "w\<lparr>services := save service (services w)\<rparr>"
  have sid: "s_id service = ?sid"
    using new_Service_id[OF valid] by (simp add: service_props_def)
  have any: "\<exists>snapshot. fst (registerService pf check request w) = Inr snapshot"
    using fresh valid by (simp add: registerService_def Let_def)
  have found1: "findById (services ?w1) ?sid = Some service"
    using sid by (simp add: findById_save)
  have saved: "findById (save service (services w)) ?sid = Some service"
    using found1 by simp
  have dir: "services (snd (registerService pf check request w)) = services (snd (check ?sid ?w1))"
    using fresh valid by (simp add: registerService_def Let_def)
  have reqs: "outbound (snd (registerService pf check request w)) = outbound (snd (check ?sid ?w1))"
    using fresh valid by (simp add: registerService_def Let_def)
  have kept: "fst (registerService pf check request w) = Inr (toSnapshot stored)
             \<and> findById (services (snd (registerService pf check request w))) ?sid = Some stored"
    if "findById (services (snd (check ?sid ?w1))) ?sid = Some stored" for stored
    using fresh valid that by (simp add: registerService_def Let_def)
  have kept_all: "\<forall>stored. findById (services (snd (check ?sid ?w1))) ?sid = Some stored \<longrightarrow>
             fst (registerService pf check request w) = Inr (toSnapshot stored)
             \<and> findById (services (snd (registerService pf check request w))) ?sid = Some stored"
    using kept by blast
  have thrown_kept: "fst (registerService pf check request w) = Inr (toSnapshot service)
             \<and> services (snd (registerService pf check request w)) = save service (services w)
             \<and> findById (services (snd (registerService pf check request w))) ?sid = Some service"
    if th: "check ?sid ?w1 = (Inl e, ?w1)" for e
  proof -
    have w2: "snd (check ?sid ?w1) = ?w1" using th by simp
    have f: "findById (services (snd (check ?sid ?w1))) ?sid = Some service"
      unfolding w2 by (rule found1)
    have "services (snd (registerService pf check request w)) = save service (services w)"
      unfolding dir w2 by simp
    then show ?thesis using kept[OF f] by simp
  qed
  have thrown_all: "\<forall>e. check ?sid ?w1 = (Inl e, ?w1) \<longrightarrow>
             fst (registerService pf check request w) = Inr (toSnapshot service)
             \<and> services (snd (registerService pf check request w)) = save service (services w)
             \<and> findById (services (snd (registerService pf check request w))) ?sid = Some service"
    using thrown_kept by blast
  obtain result w2 where chk: "checkServiceHealth pf ?sid ?w1 = (result, w2)"
    by (cases "checkServiceHealth pf ?sid ?w1")
  note eff = checkServiceHealth_effect[OF found1 chk]
  let ?stored = "service\<lparr>s_lastHealthCheck := Some result,
                  s_status := hc_status result, s_lastSeenAt := hc_timestamp result\<rparr>"
  have found2: "findById (services w2) ?sid = Some ?stored"
    using sid by (simp add: eff(1) findById_save)
  define ev where "ev = \<lparr>ev_type = SERVICE_REGISTERED, ev_serviceId = Some ?sid,
       ev_timestamp = clock w2,
       ev_data = Some (JObject [(''name'', JString (r_name request)),
                                (''type'', JString (ServiceType_value (r_type request)))])\<rparr>"
  have run: "registerService pf (healthService pf) request w
               = (Inr (toSnapshot ?stored), w2\<lparr>bus := emit ev (bus w2)\<rparr>)"
    using fresh valid chk found2
    by (simp add: registerService_def Let_def healthService_def ev_def)
  have out: "outbound (snd (registerService pf (healthService pf) request w))
           = outbound w @ [health_request service]"
    by (simp add: run eff(3))
  have "findById (services (snd (registerService pf (healthService pf) request w))) ?sid = Some ?stored
      \<and> fst (registerService pf (healthService pf) request w) = Inr (toSnapshot ?stored)
      \<and> ?stored = service\<lparr>s_status := hc_status result, s_lastHealthCheck := Some result,
                               s_lastSeenAt := hc_timestamp result\<rparr>
      \<and> hc_status result \<in> {HEALTHY, UNHEALTHY, DEGRADED}"
    using found2 eff(5) by (simp add: run)
  then have main: "\<exists>stored result.
             findById (services (snd (registerService pf (healthService pf) request w))) ?sid = Some stored
           \<and> fst (registerService pf (healthService pf) request w) = Inr (toSnapshot stored)
           \<and> stored = service\<lparr>s_status := hc_status result, s_lastHealthCheck := Some result,
                               s_lastSeenAt := hc_timestamp result\<rparr>
           \<and> hc_status result \<in> {HEALTHY, UNHEALTHY, DEGRADED}"
    by blast
  show ?thesis
    by (intro conjI any out main saved dir reqs kept_all thrown_all)
qed

theorem registration_initial_health_check_witness:
  "(\<exists>snapshot. fst (registerService (sample_platform [(7, NetworkFailure ''refused'')])
         (\<lambda>serviceId w. (Inl (JsError ''Error'' ''boom''), w))
         \<lparr>r_name = ''Payment Agent'', r_type = AGENT, r_baseUrl = ''http://pay.local/'',
          r_healthEndpoint = None, r_capabilities = None, r_metadata = None, r_version = None\<rparr>
         (sample_world [])) = Inr snapshot)
   \<and> map fr_url (outbound (snd (registerService (sample_platform [(7, NetworkFailure ''refused'')])
         (healthService (sample_platform [(7, NetworkFailure ''refused'')]))
         \<lparr>r_name = ''Payment Agent'', r_type = AGENT, r_baseUrl = ''http://pay.local/'',
          r_healthEndpoint = None, r_capabilities = None, r_metadata = None, r_version = None\<rparr>
         (sample_world [])))) = [''http://pay.local/health'']
   \<and> map s_id (services (snd (registerService (sample_platform [(7, NetworkFailure ''refused'')])
         (\<lambda>serviceId w. (Inl (JsError ''Error'' ''boom''), w))
         \<lparr>r_name = ''Payment Agent'', r_type = AGENT, r_baseUrl = ''http://pay.local/'',
          r_healthEndpoint = None, r_capabilities = None, r_metadata = None, r_version = None\<rparr>
         (sample_world [])))) = [''payment-agent'']
   \<and> map snap_status (case fst (registerService (sample_platform [(7, NetworkFailure ''refused'')])
         (\<lambda>serviceId w. (Inl (JsError ''Error'' ''boom''), w))
         \<lparr>r_name = ''Payment Agent'', r_type = AGENT, r_baseUrl = ''http://pay.local/'',
          r_healthEndpoint = None, r_capabilities = None, r_metadata = None, r_version = None\<rparr>
         (sample_world [])) of Inr snapshot \<Rightarrow> [snapshot] | Inl e \<Rightarrow> []) = [STARTING]"
proof -
  let ?pf = "sample_platform [(7, NetworkFailure ''refused'')]"
  let ?req = "\<lparr>r_name = ''Payment Agent'', r_type = AGENT, r_baseUrl = ''http://pay.local/'',
          r_healthEndpoint = None, r_capabilities = None, r_metadata = None, r_version = None\<rparr>"
  let ?svc = "(sample_service ''payment-agent'' ''http://pay.local'' AGENT STARTING)
                \<lparr>s_name := ''Payment Agent'', s_registeredAt := 5000, s_lastSeenAt := 5000\<rparr>"
  let ?boom = "\<lambda>(serviceId :: string) (w :: world).
                 (Inl (JsError ''Error'' ''boom'') :: thrown + HealthCheckResult, w)"
  let ?w = "sample_world []"
  have slug: "generateServiceId ''Payment Agent'' = ''payment-agent''"
    by code_simp
  have trim1: "String_trim ''payment-agent'' = ''payment-agent''"
    and trim2: "String_trim ''Payment Agent'' = ''Payment Agent''"
    by code_simp+
  have fresh: "findById (services ?w) (generateServiceId (r_name ?req)) = None"
    by (simp add: sample_world_def findById_def)
  have valid: "new_Service (URL_canParse ?pf) (clock ?w)
                 (service_props (generateServiceId (r_name ?req)) ?req) = Inr ?svc"
    by (simp add: slug trim1 trim2 new_Service_def service_props_def Guard_stringNotEmpty_def
        Guard_validUrl_def sample_platform_def sample_world_def sample_service_def
        stripTrailingSlash_def string_or_def)
  note inst = registration_initial_health_check[OF fresh valid, of ?boom]
  have a: "\<exists>snapshot. fst (registerService ?pf ?boom ?req ?w) = Inr snapshot"
    using inst by (rule conjunct1)
  have b: "outbound (snd (registerService ?pf (healthService ?pf) ?req ?w))
             = outbound ?w @ [health_request ?svc]"
    using inst[THEN conjunct2] by (rule conjunct1)
  have last: "\<forall>e. ?boom (generateServiceId (r_name ?req)) (?w\<lparr>services := save ?svc (services ?w)\<rparr>)
                 = (Inl e, ?w\<lparr>services := save ?svc (services ?w)\<rparr>) \<longrightarrow>
             fst (registerService ?pf ?boom ?req ?w) = Inr (toSnapshot ?svc)
             \<and> services (snd (registerService ?pf ?boom ?req ?w)) = save ?svc (services ?w)
             \<and> findById (services (snd (registerService ?pf ?boom ?req ?w)))
                  (generateServiceId (r_name ?req)) = Some ?svc"
    using inst[THEN conjunct2, THEN conjunct2, THEN conjunct2, THEN conjunct2, THEN conjunct2,
        THEN conjunct2, THEN conjunct2] .
  have thrown: "?boom (generateServiceId (r_name ?req)) (?w\<lparr>services := save ?svc (services ?w)\<rparr>)
                 = (Inl (JsError ''Error'' ''boom''), ?w\<lparr>services := save ?svc (services ?w)\<rparr>)"
    by simp
  have c: "fst (registerService ?pf ?boom ?req ?w) = Inr (toSnapshot ?svc)
             \<and> services (snd (registerService ?pf ?boom ?req ?w)) = save ?svc (services ?w)
             \<and> findById (services (snd (registerService ?pf ?boom ?req ?w)))
                  (generateServiceId (r_name ?req)) = Some ?svc"
    using last[THEN spec, THEN mp, OF thrown] .
  have c1: "map s_id (services (snd (registerService ?pf ?boom ?req ?w))) = [''payment-agent'']"
    using c by (simp add: sample_world_def sample_service_def)
  have c2: "map snap_status (case fst (registerService ?pf ?boom ?req ?w) of
                               Inr snapshot \<Rightarrow> [snapshot] | Inl e \<Rightarrow> []) = [STARTING]"
    using c by (simp add: toSnapshot_def sample_service_def)
  have b': "map fr_url (outbound (snd (registerService ?pf (healthService ?pf) ?req ?w)))
              = [''http://pay.local/health'']"
    using b by (simp add: sample_world_def health_request_def getFullHealthUrl_def
        sample_service_def)
  show ?thesis
    by (intro conjI a b' c1 c2)
qed



section \<open>Gateway: the availability gate and broadcast\<close>

lemma proxy_absent:
  assumes "findById (services w) (pr_serviceId request) = None"
  shows "\<exists>msg. proxy pf request w = (Inl (DomainError NOT_FOUND msg 404), w)"
  using assms by (simp add: proxy_def throwIfNull_def)

lemma proxy_unavailable:
  assumes "findById (services w) (pr_serviceId request) = Some service"
    and "\<not> isAvailable service"
  shows "\<exists>msg. proxy pf request w = (Inl (DomainError SERVICE_UNAVAILABLE msg 503), w)"
  using assms by (simp add: proxy_def throwIfNull_def DomainError_serviceUnavailable_def)

lemma fetch_effect:
  assumes "fetch pf req t w = (settled, w1)"
  shows "outbound w1 = outbound w @ [req]" and "services w1 = services w" and "bus w1 = bus w"
    and "clock w \<le> clock w1"
    and "settled = Inl e \<Longrightarrow> \<exists>n m. e = JsError n m"
  using assms
  by (auto simp: fetch_def split: prod.splits if_splits FetchResult.splits)

lemma proxy_available:
  assumes found: "findById (services w) (pr_serviceId request) = Some service"
    and avail: "isAvailable service"
  shows "proxy pf request w =
     (case URL_new pf (pr_path request) (s_baseUrl service) of
        None \<Rightarrow> (Inl (JsError ''TypeError'' ''Invalid URL''), w)
      | Some href \<Rightarrow>
          (case fetch pf (proxy_options pf request href) (proxy_timeout request) w of
             (Inl error, w1) \<Rightarrow>
               (if error_name error = ''AbortError''
                then Inl (DomainError_gatewayTimeout (pr_serviceId request))
                else Inl error, w1)
           | (Inr response, w1) \<Rightarrow>
               (case (case map_of (res_headers response) ''content-type'' of
                        Some ct \<Rightarrow>
                          if String_includes ct ''application/json''
                          then res_json response
                          else Inr (JString (res_text response))
                      | None \<Rightarrow> Inr (JString (res_text response))) of
                  Inl msg \<Rightarrow> (Inl (JsError ''SyntaxError'' msg), w1)
                | Inr body \<Rightarrow>
                    (Inr \<lparr>resp_status = res_status response,
                          resp_headers = res_headers response,
                          resp_body = body,
                          resp_responseTimeMs = clock w1 - clock w\<rparr>,
                     w1\<lparr>services := save (touch (clock w1) service) (services w1)\<rparr>))))"
  using found avail
  unfolding proxy_def throwIfNull_def proxy_options_def proxy_timeout_def Let_def
  by (simp split: option.splits prod.splits sum.splits)

lemma proxy_available_error:
  assumes found: "findById (services w) (pr_serviceId request) = Some service"
    and avail: "isAvailable service"
    and err: "fst (proxy pf request w) = Inl (DomainError code msg st)"
  shows "code = GATEWAY_TIMEOUT"
proof (cases "URL_new pf (pr_path request) (s_baseUrl service)")
  case None
  then show ?thesis using err by (simp add: proxy_available[OF found avail])
next
  case (Some href)
  obtain settled w1 where f: "fetch pf (proxy_options pf request href) (proxy_timeout request) w = (settled, w1)"
    by (cases "fetch pf (proxy_options pf request href) (proxy_timeout request) w")
  show ?thesis
  proof (cases settled)
    case (Inl e)
    then obtain n m where "e = JsError n m" using fetch_effect(5)[OF f] by blast
    then show ?thesis
      using err Some f Inl
      by (simp add: proxy_available[OF found avail] DomainError_gatewayTimeout_def split: if_splits)
  next
    case (Inr response)
    then show ?thesis
      using err Some f
      by (simp add: proxy_available[OF found avail] split: sum.splits option.splits if_splits)
  qed
qed

lemma proxy_available_request:
  assumes found: "findById (services w) (pr_serviceId request) = Some service"
    and avail: "isAvailable service"
    and url: "URL_new pf (pr_path request) (s_baseUrl service) = Some href"
  shows "outbound (snd (proxy pf request w)) = outbound w @ [proxy_options pf request href]"
proof -
  obtain settled w1 where f: "fetch pf (proxy_options pf request href) (proxy_timeout request) w = (settled, w1)"
    by (cases "fetch pf (proxy_options pf request href) (proxy_timeout request) w")
  show ?thesis
    using fetch_effect(1)[OF f] url f
    by (cases settled)
       (simp_all add: proxy_available[OF found avail] split: sum.splits option.splits if_splits)
qed

lemma broadcast_leg_eq:
  "broadcast_leg pf message service (results, w) =
     (Inr (),
      results(s_id service \<mapsto> leg_entry (fst (proxy pf (broadcast_request service message) w))),
      snd (proxy pf (broadcast_request service message) w))"
  by (cases "proxy pf (broadcast_request service message) w")
     (auto simp: broadcast_leg_def leg_entry_def split: sum.splits)

lemma broadcast_legs_Cons:
  "broadcast_legs pf message t0 (service # rest) (results, w) =
     broadcast_legs pf message t0 rest
       (results(s_id service \<mapsto>
          leg_entry (fst (proxy pf (broadcast_request service message) (w\<lparr>clock := t0\<rparr>)))),
        (snd (proxy pf (broadcast_request service message) (w\<lparr>clock := t0\<rparr>)))
          \<lparr>clock := max (clock w)
             (clock (snd (proxy pf (broadcast_request service message) (w\<lparr>clock := t0\<rparr>))))\<rparr>)"
  by (simp add: broadcast_leg_eq split: prod.splits)

lemma broadcast_legs_settled:
  "fst (broadcast_legs pf message t0 targets rw) = Inr ()"
proof (induction targets arbitrary: rw)
  case Nil
  then show ?case by simp
next
  case (Cons service rest)
  obtain results w where rw: "rw = (results, w)" by (cases rw)
  show ?case unfolding rw broadcast_legs_Cons by (rule Cons.IH)
qed


lemma broadcast_legs_dom:
  "dom (fst (snd (broadcast_legs pf message t0 targets (results, w))))
     = dom results \<union> s_id ` set targets"
proof (induction targets arbitrary: results w)
  case Nil
  then show ?case by simp
next
  case (Cons service rest)
  show ?case unfolding broadcast_legs_Cons Cons.IH by auto
qed




lemma broadcast_results:
  "broadcast pf serviceType message w =
     (Inr (fst (snd (broadcast_legs pf message (clock w) (broadcast_targets serviceType w) (Map.empty, w)))),
      snd (snd (broadcast_legs pf message (clock w) (broadcast_targets serviceType w) (Map.empty, w))))"
  using broadcast_legs_settled[of pf message "clock w" "broadcast_targets serviceType w" "(Map.empty, w)"]
  by (auto simp: broadcast_def split: prod.splits sum.splits)

lemma isAvailable_iff: "isAvailable s \<longleftrightarrow> s_status s \<in> {HEALTHY, DEGRADED}"
  by (auto simp: isAvailable_def)

lemma not_isAvailable_iff: "\<not> isAvailable s \<longleftrightarrow> s_status s \<in> {UNHEALTHY, STARTING, STOPPING, UNKNOWN}"
  by (cases "s_status s") (auto simp: isAvailable_def)





text \<open>
  C1. A proxy request for an id that is not in the directory fails with NOT_FOUND (404)
  and changes nothing; for a service whose status is unhealthy, starting, stopping or
  unknown it fails with SERVICE_UNAVAILABLE (503) and changes nothing; for a service
  whose status is healthy or degraded the gate lets the call through: the only
  \<open>DomainError\<close> it can still end in is GATEWAY_TIMEOUT, and when the address resolves,
  the one outbound request of the call is issued. The targets of a broadcast over a
  service type are exactly the services of that type whose status is healthy or degraded,
  in directory order, and the ids of these are the keys of the map it returns.
\<close>

theorem availability_gate:
  "(findById (services w) (pr_serviceId request) = None \<longrightarrow>
      (\<exists>msg. proxy pf request w = (Inl (DomainError NOT_FOUND msg 404), w)))
   \<and> (\<forall>service. findById (services w) (pr_serviceId request) = Some service \<longrightarrow>
        (s_status service \<in> {UNHEALTHY, STARTING, STOPPING, UNKNOWN} \<longrightarrow>
           (\<exists>msg. proxy pf request w = (Inl (DomainError SERVICE_UNAVAILABLE msg 503), w)))
        \<and> (s_status service \<in> {HEALTHY, DEGRADED} \<longrightarrow>
             (\<forall>code msg st. fst (proxy pf request w) = Inl (DomainError code msg st)
                \<longrightarrow> code = GATEWAY_TIMEOUT)
             \<and> (\<forall>href. URL_new pf (pr_path request) (s_baseUrl service) = Some href \<longrightarrow>
                  outbound (snd (proxy pf request w))
                    = outbound w @ [proxy_options pf request href])))
   \<and> broadcast_targets serviceType w
       = filter (\<lambda>s. ServiceType_value (s_type s) = serviceType \<and> s_status s \<in> {HEALTHY, DEGRADED})
           (services w)
   \<and> (\<exists>results. fst (broadcast pf serviceType message w) = Inr results
         \<and> dom results
             = s_id ` {s \<in> set (services w). ServiceType_value (s_type s) = serviceType
                                             \<and> s_status s \<in> {HEALTHY, DEGRADED}})"
proof -
  have targets: "broadcast_targets serviceType w
       = filter (\<lambda>s. ServiceType_value (s_type s) = serviceType \<and> s_status s \<in> {HEALTHY, DEGRADED})
           (services w)"
    by (simp add: broadcast_targets_def findByType_def isAvailable_iff conj_commute)
  have "dom (fst (snd (broadcast_legs pf message (clock w) (broadcast_targets serviceType w) (Map.empty, w))))
          = s_id ` set (broadcast_targets serviceType w)"
    by (simp add: broadcast_legs_dom)
  then have bc: "\<exists>results. fst (broadcast pf serviceType message w) = Inr results
         \<and> dom results
             = s_id ` {s \<in> set (services w). ServiceType_value (s_type s) = serviceType
                                             \<and> s_status s \<in> {HEALTHY, DEGRADED}}"
    by (simp add: broadcast_results targets)
  have gate: "(s_status service \<in> {UNHEALTHY, STARTING, STOPPING, UNKNOWN} \<longrightarrow>
           (\<exists>msg. proxy pf request w = (Inl (DomainError SERVICE_UNAVAILABLE msg 503), w)))
        \<and> (s_status service \<in> {HEALTHY, DEGRADED} \<longrightarrow>
             (\<forall>code msg st. fst (proxy pf request w) = Inl (DomainError code msg st)
                \<longrightarrow> code = GATEWAY_TIMEOUT)
             \<and> (\<forall>href. URL_new pf (pr_path request) (s_baseUrl service) = Some href \<longrightarrow>
                  outbound (snd (proxy pf request w))
                    = outbound w @ [proxy_options pf request href]))"
    if found: "findById (services w) (pr_serviceId request) = Some service" for service
  proof -
    have a: "\<exists>msg. proxy pf request w = (Inl (DomainError SERVICE_UNAVAILABLE msg 503), w)"
      if "s_status service \<in> {UNHEALTHY, STARTING, STOPPING, UNKNOWN}"
      using proxy_unavailable[OF found] that not_isAvailable_iff[of service] by blast
    have b: "code = GATEWAY_TIMEOUT"
      if "s_status service \<in> {HEALTHY, DEGRADED}"
        and "fst (proxy pf request w) = Inl (DomainError code msg st)" for code msg st
      using proxy_available_error[OF found _ that(2)] that(1) isAvailable_iff[of service] by blast
    have c: "outbound (snd (proxy pf request w)) = outbound w @ [proxy_options pf request href]"
      if "s_status service \<in> {HEALTHY, DEGRADED}"
        and "URL_new pf (pr_path request) (s_baseUrl service) = Some href" for href
      using proxy_available_request[OF found _ that(2)] that(1) isAvailable_iff[of service]
      by simp
    from a b c show ?thesis by blast
  qed
  have absent: "findById (services w) (pr_serviceId request) = None \<longrightarrow>
      (\<exists>msg. proxy pf request w = (Inl (DomainError NOT_FOUND msg 404), w))"
    using proxy_absent[of w request pf] by blast
  from gate have gate': "\<forall>service. findById (services w) (pr_serviceId request) = Some service \<longrightarrow>
        (s_status service \<in> {UNHEALTHY, STARTING, STOPPING, UNKNOWN} \<longrightarrow>
           (\<exists>msg. proxy pf request w = (Inl (DomainError SERVICE_UNAVAILABLE msg 503), w)))
        \<and> (s_status service \<in> {HEALTHY, DEGRADED} \<longrightarrow>
             (\<forall>code msg st. fst (proxy pf request w) = Inl (DomainError code msg st)
                \<longrightarrow> code = GATEWAY_TIMEOUT)
             \<and> (\<forall>href. URL_new pf (pr_path request) (s_baseUrl service) = Some href \<longrightarrow>
                  outbound (snd (proxy pf request w))
                    = outbound w @ [proxy_options pf request href]))"
    by (intro allI impI)
  show ?thesis
    by (intro conjI absent gate' targets bc)
qed

theorem availability_gate_witness:
  "(\<exists>msg. proxy (sample_platform []) (sample_request ''ghost'') (sample_world sample_directory)
            = (Inl (DomainError NOT_FOUND msg 404), sample_world sample_directory))
   \<and> (\<exists>msg. proxy (sample_platform []) (sample_request ''b'') (sample_world sample_directory)
            = (Inl (DomainError SERVICE_UNAVAILABLE msg 503), sample_world sample_directory))
   \<and> map fr_url (outbound (snd (proxy (sample_platform [(10, Response (ok_response 200 ''ok''))])
         (sample_request ''d'') (sample_world sample_directory)))) = [''http://d.local/users'']
   \<and> map s_id (broadcast_targets ''agent'' (sample_world sample_directory)) = [''a'', ''d'']"
proof -
  let ?w = "sample_world sample_directory"
  have absent: "findById (services ?w) (pr_serviceId (sample_request ''ghost'')) = None"
    by (simp add: sample_world_def sample_directory_def findById_def sample_service_def
        sample_request_def)
  have b: "findById (services ?w) (pr_serviceId (sample_request ''b''))
             = Some (sample_service ''b'' ''http://b.local'' AGENT UNHEALTHY)"
    by (simp add: sample_world_def sample_directory_def findById_def sample_service_def
        sample_request_def)
  have d: "findById (services ?w) (pr_serviceId (sample_request ''d''))
             = Some (sample_service ''d'' ''http://d.local'' AGENT DEGRADED)"
    by (simp add: sample_world_def sample_directory_def findById_def sample_service_def
        sample_request_def)
  have url: "URL_new (sample_platform [(10, Response (ok_response 200 ''ok''))])
               (pr_path (sample_request ''d''))
               (s_baseUrl (sample_service ''d'' ''http://d.local'' AGENT DEGRADED))
             = Some ''http://d.local/users''"
    by (simp add: sample_platform_def sample_URL_new_def sample_request_def sample_service_def)
  have c1: "\<exists>msg. proxy (sample_platform []) (sample_request ''ghost'') ?w
            = (Inl (DomainError NOT_FOUND msg 404), ?w)"
    using availability_gate[of ?w "sample_request ''ghost''" "sample_platform []"] absent by blast
  have c2: "\<exists>msg. proxy (sample_platform []) (sample_request ''b'') ?w
            = (Inl (DomainError SERVICE_UNAVAILABLE msg 503), ?w)"
    using availability_gate[of ?w "sample_request ''b''" "sample_platform []"] b
    by (simp add: sample_service_def)
  have c3: "outbound (snd (proxy (sample_platform [(10, Response (ok_response 200 ''ok''))])
         (sample_request ''d'') ?w))
       = outbound ?w @ [proxy_options (sample_platform [(10, Response (ok_response 200 ''ok''))])
                          (sample_request ''d'') ''http://d.local/users'']"
    using availability_gate[of ?w "sample_request ''d''"
        "sample_platform [(10, Response (ok_response 200 ''ok''))]"] d url
    by (simp add: sample_service_def)
  have c4: "map s_id (broadcast_targets ''agent'' ?w) = [''a'', ''d'']"
    using availability_gate[of ?w _ _ "''agent''"]
    by (simp add: sample_world_def sample_directory_def sample_service_def)
  from c1 c2 c3 c4 show ?thesis
    by (simp add: sample_world_def proxy_options_def sample_request_def)
qed




section \<open>Slug derivation\<close>

lemma dash_not_alnum: "\<not> isLowerAlnum CHR ''-''"
  by (simp add: isLowerAlnum_def)

lemma replace_step:
  "\<not> isLowerAlnum c \<Longrightarrow>
   replaceNonAlnumRuns (c # cs) =
     (if cs \<noteq> [] \<and> \<not> isLowerAlnum (hd cs) then replaceNonAlnumRuns cs
      else CHR ''-'' # replaceNonAlnumRuns cs)"
  by (cases cs) auto

lemma words_nonempty:
  "\<forall>w \<in> set (alnum_words s). w \<noteq> [] \<and> (\<forall>c \<in> set w. isLowerAlnum c)"
proof (induction s)
  case Nil
  then show ?case by simp
next
  case (Cons c cs)
  show ?case
  proof (cases "isLowerAlnum c")
    case False
    then show ?thesis using Cons.IH by simp
  next
    case cT: True
    show ?thesis
    proof (cases cs)
      case Nil
      then show ?thesis using cT by simp
    next
      case cs: (Cons d ds)
      show ?thesis
      proof (cases "isLowerAlnum d")
        case False
        then have "alnum_words (c # cs) = [c] # alnum_words cs" using cT cs by simp
        then show ?thesis using Cons.IH cT by simp
      next
        case dT: True
        show ?thesis
        proof (cases "alnum_words cs")
          case Nil
          then have "alnum_words (c # cs) = [[c]]" using cT dT cs by simp
          then show ?thesis using cT by simp
        next
          case (Cons w ws)
          then have "alnum_words (c # cs) = (c # w) # ws" using cT dT cs by simp
          then show ?thesis using Cons.IH Cons cT by simp
        qed
      qed
    qed
  qed
qed

lemma words_Nil_iff: "alnum_words s = [] \<longleftrightarrow> (\<forall>c \<in> set s. \<not> isLowerAlnum c)"
  by (induction s) (auto split: list.splits)

lemma hd_words: "s \<noteq> [] \<Longrightarrow> isLowerAlnum (hd s) \<Longrightarrow> alnum_words s \<noteq> [] \<and> hd (hd (alnum_words s)) = hd s"
  by (cases s) (auto split: list.splits)

lemma replace_alnum:
  "isLowerAlnum c \<Longrightarrow> replaceNonAlnumRuns (c # cs) = c # replaceNonAlnumRuns cs"
  by simp

lemma words_all_other: "\<forall>c \<in> set s. \<not> isLowerAlnum c \<Longrightarrow> alnum_words s = []"
  by (simp add: words_Nil_iff)

lemma last_other: "alnum_words cs = [] \<Longrightarrow> cs \<noteq> [] \<Longrightarrow> \<not> isLowerAlnum (last cs)"
  by (simp add: words_Nil_iff)

lemma replace_shape:
  "replaceNonAlnumRuns s = lead s @ join_dashes (alnum_words s) @ trail s"
proof (induction s)
  case Nil
  then show ?case by (simp add: lead_def trail_def)
next
  case (Cons c cs)
  note IH = Cons.IH
  show ?case
  proof (cases "isLowerAlnum c")
    case cT: True
    have f: "replaceNonAlnumRuns (c # cs) = c # replaceNonAlnumRuns cs"
      using cT by (rule replace_alnum)
    have l0: "lead (c # cs) = []" using cT by (simp add: lead_def)
    show ?thesis
    proof (cases cs)
      case Nil
      have "replaceNonAlnumRuns [c] = [c]" using cT by simp
      moreover have "alnum_words [c] = [[c]]" using cT by simp
      moreover have "trail [c] = []" using cT by (simp add: trail_def)
      ultimately show ?thesis using Nil l0 by simp
    next
      case (Cons d ds)
      show ?thesis
      proof (cases "isLowerAlnum d")
        case dT: True
        then obtain w ws where ws: "alnum_words cs = w # ws"
          using hd_words[of cs] Cons by (cases "alnum_words cs") auto
        have w1: "alnum_words (c # cs) = (c # w) # ws"
          using cT dT Cons ws by simp
        have l: "lead cs = []" using dT Cons by (simp add: lead_def)
        have j: "join_dashes ((c # w) # ws) = c # join_dashes (w # ws)"
          by (cases ws) auto
        have t: "trail (c # cs) = trail cs"
          unfolding trail_def w1 ws using Cons by simp
        show ?thesis
          unfolding f IH l l0 w1 j t ws by simp
      next
        case dF: False
        have w1: "alnum_words (c # cs) = [c] # alnum_words cs"
          using cT dF Cons by simp
        have l: "lead cs = ''-''" using dF Cons by (simp add: lead_def)
        show ?thesis
        proof (cases "alnum_words cs")
          case Nil
          have t0: "trail cs = []" using Nil by (simp add: trail_def)
          have nl: "\<not> isLowerAlnum (last cs)"
            using last_other[OF Nil] \<open>cs = d # ds\<close> by simp
          have lc: "last (c # cs) = last cs" using \<open>cs = d # ds\<close> by simp
          have t1: "trail (c # cs) = ''-''"
            unfolding trail_def w1 lc using nl by simp
          show ?thesis unfolding f IH l l0 w1 Nil t0 t1 by simp
        next
          case (Cons v vs)
          have t: "trail (c # cs) = trail cs"
            unfolding trail_def w1 Cons using \<open>cs = d # ds\<close> by simp
          show ?thesis unfolding f IH l l0 w1 Cons t by simp
        qed
      qed
    qed
  next
    case cF: False
    have w1: "alnum_words (c # cs) = alnum_words cs" using cF by simp
    have l0: "lead (c # cs) = ''-''" using cF by (simp add: lead_def)
    show ?thesis
    proof (cases cs)
      case Nil
      have "replaceNonAlnumRuns [c] = ''-''" using cF by simp
      moreover have "trail [c] = []" using cF by (simp add: trail_def)
      moreover have "alnum_words [c] = []" using cF by simp
      ultimately show ?thesis using Nil l0 by simp
    next
      case (Cons d ds)
      have t: "trail (c # cs) = trail cs"
        unfolding trail_def w1 using Cons by simp
      show ?thesis
      proof (cases "isLowerAlnum d")
        case True
        have f: "replaceNonAlnumRuns (c # cs) = CHR ''-'' # replaceNonAlnumRuns cs"
          using replace_step[OF cF, of cs] True Cons by simp
        have l: "lead cs = []" using True Cons by (simp add: lead_def)
        show ?thesis unfolding f IH l l0 w1 t by simp
      next
        case False
        have f: "replaceNonAlnumRuns (c # cs) = replaceNonAlnumRuns cs"
          using replace_step[OF cF, of cs] False Cons by simp
        have l: "lead cs = ''-''" using False Cons by (simp add: lead_def)
        show ?thesis unfolding f IH l l0 w1 t by simp
      qed
    qed
  qed
qed

lemma join_hd_last:
  assumes "ws \<noteq> []" and "\<forall>w \<in> set ws. w \<noteq> [] \<and> (\<forall>c \<in> set w. isLowerAlnum c)"
  shows "join_dashes ws \<noteq> [] \<and> isLowerAlnum (hd (join_dashes ws))
         \<and> isLowerAlnum (last (join_dashes ws))"
  using assms
proof (induction ws rule: join_dashes.induct)
  case 1
  then show ?case by simp
next
  case (2 w)
  then show ?case by simp
next
  case (3 w v ws)
  then have "w \<noteq> []" "isLowerAlnum (hd w)" by auto
  moreover have "join_dashes (v # ws) \<noteq> [] \<and> isLowerAlnum (last (join_dashes (v # ws)))"
    using 3 by simp
  ultimately show ?case by simp
qed

lemma trimDashes_shape:
  assumes "b \<noteq> [] \<longrightarrow> hd b \<noteq> CHR ''-'' \<and> last b \<noteq> CHR ''-''"
    and "l = [] \<or> l = ''-''" and "t = [] \<or> t = ''-''" and "b = [] \<longrightarrow> t = []"
  shows "trimDashes (l @ b @ t) = b"
  using assms by (cases "b = []") (auto simp: trimDashes_def Let_def)


lemma slug_words: "generateServiceId name = join_dashes (alnum_words (String_toLowerCase name))"
proof -
  let ?s = "String_toLowerCase name"
  let ?b = "join_dashes (alnum_words ?s)"
  have b: "?b \<noteq> [] \<longrightarrow> hd ?b \<noteq> CHR ''-'' \<and> last ?b \<noteq> CHR ''-''"
  proof
    assume ne: "?b \<noteq> []"
    then have "alnum_words ?s \<noteq> []" by auto
    from join_hd_last[OF this words_nonempty[of ?s]]
    have "isLowerAlnum (hd ?b) \<and> isLowerAlnum (last ?b)" by blast
    then show "hd ?b \<noteq> CHR ''-'' \<and> last ?b \<noteq> CHR ''-''"
      using dash_not_alnum by metis
  qed
  have t: "?b = [] \<longrightarrow> trail ?s = []"
  proof
    assume e: "?b = []"
    have "alnum_words ?s = []"
    proof (rule ccontr)
      assume "alnum_words ?s \<noteq> []"
      from join_hd_last[OF this words_nonempty[of ?s]] e show False by blast
    qed
    then show "trail ?s = []" by (simp add: trail_def)
  qed
  show ?thesis
    unfolding generateServiceId_def replace_shape
    by (rule trimDashes_shape[OF b _ _ t]) (simp_all add: lead_def trail_def)
qed

lemma registerService_snapshot_id:
  assumes "fst (registerService pf check request w) = Inr snapshot"
  shows "snap_id snapshot = generateServiceId (r_name request)"
proof (cases "findById (services w) (generateServiceId (r_name request))")
  case (Some existing)
  have "s_id existing = generateServiceId (r_name request)"
    using Some by (rule findById_Some_id)
  then show ?thesis
    using assms Some by (auto simp: registerService_def Let_def toSnapshot_def touch_def)
next
  case None
  show ?thesis
  proof (cases "new_Service (URL_canParse pf) (clock w)
                  (service_props (generateServiceId (r_name request)) request)")
    case (Inl e)
    then show ?thesis using assms None by (simp add: registerService_def Let_def)
  next
    case (Inr service)
    have sid: "s_id service = generateServiceId (r_name request)"
      using new_Service_id[OF Inr] by (simp add: service_props_def)
    obtain stored where
      snap: "snapshot = toSnapshot stored" and
      st: "s_id stored = generateServiceId (r_name request)"
    proof -
      let ?w3 = "snd (registerService pf check request w)"
      show ?thesis
      proof (cases "findById (services ?w3) (generateServiceId (r_name request))")
        case None
        then have "snapshot = toSnapshot service"
          using assms \<open>findById (services w) (generateServiceId (r_name request)) = None\<close> Inr
          by (simp add: registerService_def Let_def)
        then show ?thesis using sid that by blast
      next
        case (Some stored)
        then have "snapshot = toSnapshot stored"
          using assms \<open>findById (services w) (generateServiceId (r_name request)) = None\<close> Inr
          by (simp add: registerService_def Let_def)
        moreover have "s_id stored = generateServiceId (r_name request)"
          using Some by (rule findById_Some_id)
        ultimately show ?thesis using that by blast
      qed
    qed
    then show ?thesis by (simp add: toSnapshot_def)
  qed
qed

text \<open>
  C5. The identifier of a registration is \<open>generateServiceId\<close> of its name: every
  snapshot \<open>registerService\<close> returns carries it. It is the lower-cased name in which
  every maximal run of characters outside \<open>[a-z0-9]\<close> has become one dash, without a
  dash at the start and at the end; that is, the maximal runs of lower-case letters and
  digits of the lower-cased name, joined by single dashes. \<open>Payment Agent\<close> gives
  \<open>payment-agent\<close>, and the name with two leading blanks, three blanks between the
  words and \<open>!!\<close> and a blank at the end gives \<open>multiple-spaces\<close>.
\<close>

theorem slug_derivation:
  "generateServiceId ''Payment Agent'' = ''payment-agent''
   \<and> generateServiceId ''  Multiple   Spaces!! '' = ''multiple-spaces''
   \<and> generateServiceId name
       = trimDashes (replaceNonAlnumRuns (String_toLowerCase name))
   \<and> generateServiceId name = join_dashes (alnum_words (String_toLowerCase name))
   \<and> (\<forall>snapshot. fst (registerService pf check request w) = Inr snapshot \<longrightarrow>
          snap_id snapshot = generateServiceId (r_name request))"
proof -
  have e1: "generateServiceId ''Payment Agent'' = ''payment-agent''"
    by code_simp
  have e2: "generateServiceId ''  Multiple   Spaces!! '' = ''multiple-spaces''"
    by code_simp
  have reg: "\<forall>snapshot. fst (registerService pf check request w) = Inr snapshot \<longrightarrow>
          snap_id snapshot = generateServiceId (r_name request)"
    using registerService_snapshot_id by blast
  show ?thesis
    by (intro conjI e1 e2 slug_words reg) (simp add: generateServiceId_def)
qed

theorem slug_derivation_witness:
  "\<exists>snapshot.
     fst (registerService (sample_platform []) (healthService (sample_platform []))
            \<lparr>r_name = ''Payment Agent'', r_type = API, r_baseUrl = ''http://other.local'',
             r_healthEndpoint = None, r_capabilities = None, r_metadata = None,
             r_version = None\<rparr>
            (sample_world [sample_service ''payment-agent'' ''http://a.local'' AGENT HEALTHY]))
       = Inr snapshot
     \<and> snap_id snapshot = ''payment-agent''"
proof -
  let ?svc = "sample_service ''payment-agent'' ''http://a.local'' AGENT HEALTHY"
  let ?w = "sample_world [?svc]"
  let ?req = "\<lparr>r_name = ''Payment Agent'', r_type = API, r_baseUrl = ''http://other.local'',
             r_healthEndpoint = None, r_capabilities = None, r_metadata = None,
             r_version = None\<rparr>"
  let ?pf = "sample_platform []"
  have slug: "generateServiceId ''Payment Agent'' = ''payment-agent''"
    using slug_derivation[of "''Payment Agent''" ?pf "healthService ?pf" ?req ?w]
    by (rule conjunct1)
  have found: "findById (services ?w) (generateServiceId ''Payment Agent'') = Some ?svc"
    by (simp add: slug sample_world_def findById_def sample_service_def)
  have run: "fst (registerService ?pf (healthService ?pf) ?req ?w)
               = Inr (toSnapshot (touch (clock ?w) ?svc))"
    unfolding registerService_def Let_def by (simp add: found)
  have reg: "fst (registerService ?pf (healthService ?pf) ?req ?w)
               = Inr (toSnapshot (touch (clock ?w) ?svc)) \<longrightarrow>
             snap_id (toSnapshot (touch (clock ?w) ?svc)) = generateServiceId (r_name ?req)"
    using slug_derivation[of "''Payment Agent''" ?pf "healthService ?pf" ?req ?w,
        THEN conjunct2, THEN conjunct2, THEN conjunct2, THEN conjunct2]
    by (rule spec)
  have "snap_id (toSnapshot (touch (clock ?w) ?svc)) = generateServiceId (r_name ?req)"
    using reg run by (rule mp)
  then have "snap_id (toSnapshot (touch (clock ?w) ?svc)) = ''payment-agent''"
    by (simp add: slug)
  then show ?thesis using run by blast
qed

section \<open>Gateway: the destination of a proxied request\<close>

text \<open>
  C3 (the code at the claim's own case). The service \<open>billing\<close> is registered with the
  base address \<open>http://localhost:3001/api\<close>, whose path component is \<open>/api\<close>, and is
  healthy. A proxy request for the path \<open>/users\<close> is issued to
  \<open>http://localhost:3001/users\<close>: \<open>new URL(request.path, service.baseUrl)\<close> resolves an
  absolute path against the origin of the base and drops the base's own path. The
  concatenation of base address and path is \<open>http://localhost:3001/api/users\<close>, and the
  active check of the same service, which does concatenate, goes to
  \<open>http://localhost:3001/api/health\<close>.
\<close>

theorem proxy_destination_drops_base_path:
  "map fr_url (outbound (snd (proxy (sample_platform [(10, Response (ok_response 200 ''ok''))])
       (sample_request ''billing'')
       (sample_world [sample_service ''billing'' ''http://localhost:3001/api'' API HEALTHY]))))
     = [''http://localhost:3001/users'']
   \<and> s_baseUrl (sample_service ''billing'' ''http://localhost:3001/api'' API HEALTHY)
       @ pr_path (sample_request ''billing'') = ''http://localhost:3001/api/users''
   \<and> fr_url (health_request (sample_service ''billing'' ''http://localhost:3001/api'' API HEALTHY))
       = ''http://localhost:3001/api/health''"
  by (simp add: proxy_def throwIfNull_def findById_def sample_world_def sample_service_def
      sample_request_def isAvailable_def sample_platform_def sample_URL_new_def fetch_def
      ok_response_def Let_def COMMAND_TIMEOUT_MS_def touch_def proxy_options_def
      proxy_timeout_def health_request_def getFullHealthUrl_def)

end
